(* ===== verification/Prelude.thy ===== *)
theory Prelude
  imports Main "HOL-Library.AList" "HOL-Library.Sublist"
begin

text \<open>
  Shared vocabulary of the development: Python dictionaries as association lists (so that
  the insertion order Python keeps is kept too), the truthiness of optional strings, the
  quoting that the source's f-strings use, Python's \<open>repr\<close> of a string (what \<open>str\<close> of
  a \<open>KeyError\<close> prints), the exceptions that cross the engine, and the JSON values of a
  run's state. The lemma collection \<open>pydict_simps\<close> gathers the dictionary facts the
  component proofs use.
\<close>

named_theorems pydict_simps "facts about Python dictionaries modelled as association lists"

section \<open>Python dictionaries\<close>

text \<open>
  A Python \<open>dict\<close> keeps its keys in insertion order; \<open>d[k] = v\<close> replaces the value of
  an existing key in place and appends a new key at the end. \<open>AList.update\<close> does exactly
  this, and \<open>map_of\<close> is \<open>d.get(k)\<close>.
\<close>

type_synonym ('k, 'v) pydict = "('k \<times> 'v) list"

definition py_get :: "('k, 'v) pydict \<Rightarrow> 'k \<Rightarrow> 'v option" where
  "py_get d k = map_of d k"

definition py_set :: "'k \<Rightarrow> 'v \<Rightarrow> ('k, 'v) pydict \<Rightarrow> ('k, 'v) pydict" where
  "py_set k v d = AList.update k v d"

definition py_keys :: "('k, 'v) pydict \<Rightarrow> 'k list" where
  "py_keys d = map fst d"

text \<open>\<open>del d[k]\<close> (and the removal of a finished coroutine's frame).\<close>

definition py_del :: "'k \<Rightarrow> ('k, 'v) pydict \<Rightarrow> ('k, 'v) pydict" where
  "py_del k d = AList.delete k d"

definition py_contains :: "('k, 'v) pydict \<Rightarrow> 'k \<Rightarrow> bool" where
  "py_contains d k \<longleftrightarrow> k \<in> set (py_keys d)"

section \<open>Truthiness, quoting and repr\<close>

text \<open>\<open>while current:\<close> and \<open>if result.message:\<close> test an \<open>Optional[str]\<close>: false for
  \<open>None\<close> and for the empty string.\<close>

fun py_truthy :: "string option \<Rightarrow> bool" where
  "py_truthy None = False"
| "py_truthy (Some s) = (s \<noteq> [])"

definition apos :: char where
  "apos = CHR 0x27"

definition dquote :: char where
  "dquote = CHR 0x22"

definition backslash :: char where
  "backslash = CHR 0x5C"

text \<open>\<open>f"...'{x}'..."\<close>: the value between two apostrophes.\<close>

definition quoted :: "string \<Rightarrow> string" where
  "quoted s = apos # s @ [apos]"

definition hex_digit :: "nat \<Rightarrow> char" where
  "hex_digit n = ''0123456789abcdef'' ! (n mod 16)"

text \<open>
  Python's \<open>repr\<close> of a \<open>str\<close> (Objects/unicodeobject.c, \<open>unicode_repr\<close>) for code
  points below 256, which is what a HOL \<open>char\<close> holds: the apostrophe quotes the text unless
  the text contains an apostrophe and no double quote; the quote character and the
  backslash are escaped; tab, newline and carriage return get their escapes; the other
  non-printable characters (below 0x20, 0x7F to 0xA0, and the soft hyphen 0xAD) become
  \<open>\xHH\<close>.
\<close>

definition py_printable :: "char \<Rightarrow> bool" where
  "py_printable c \<longleftrightarrow>
     (let n = of_char c :: nat in 0x20 \<le> n \<and> n \<noteq> 0x7F \<and> \<not> (0x80 \<le> n \<and> n \<le> 0xA0) \<and> n \<noteq> 0xAD)"

definition repr_char :: "char \<Rightarrow> char \<Rightarrow> string" where
  "repr_char q c =
     (if c = q \<or> c = backslash then [backslash, c]
      else if c = CHR 0x09 then [backslash, CHR ''t'']
      else if c = CHR 0x0A then [backslash, CHR ''n'']
      else if c = CHR 0x0D then [backslash, CHR ''r'']
      else if \<not> py_printable c then
        [backslash, CHR ''x'', hex_digit (of_char c div 16), hex_digit (of_char c)]
      else [c])"

definition repr_quote :: "string \<Rightarrow> char" where
  "repr_quote s = (if apos \<in> set s \<and> dquote \<notin> set s then dquote else apos)"

definition py_repr :: "string \<Rightarrow> string" where
  "py_repr s = (let q = repr_quote s in q # concat (map (repr_char q) s) @ [q])"

section \<open>Exceptions\<close>

text \<open>
  The exceptions that cross the engine. \<open>Key_error m\<close> is \<open>KeyError(m)\<close>, raised by the
  engine and the tool registry; \<open>str\<close> of it is \<open>repr(m)\<close>. \<open>Other_exception s\<close> is any
  other subclass of \<open>Exception\<close> a node raises, given by its \<open>str\<close>. \<open>Base_exception s\<close>
  derives from \<open>BaseException\<close> only (\<open>asyncio.CancelledError\<close>,
  \<open>KeyboardInterrupt\<close>): \<open>except Exception\<close> does not catch it.
\<close>

datatype exc =
    Key_error string
  | Other_exception string
  | Base_exception string

fun exc_str :: "exc \<Rightarrow> string" where
  "exc_str (Key_error m) = py_repr m"
| "exc_str (Other_exception s) = s"
| "exc_str (Base_exception s) = s"

fun is_exception :: "exc \<Rightarrow> bool" where
  "is_exception (Base_exception _) = False"
| "is_exception _ = True"

section \<open>JSON values and run state\<close>

text \<open>A run's state is a \<open>dict\<close> of JSON-compatible values (the HTTP layer accepts
  \<open>Dict[str, Any]\<close> parsed from JSON). Floats are not distinguished from integers here.\<close>

datatype json =
    JNull
  | JBool bool
  | JInt int
  | JStr string
  | JList "json list"
  | JObject "(string \<times> json) list"

type_synonym state = "(string, json) pydict"

section \<open>Dictionary lemmas\<close>

lemma py_get_set [pydict_simps]:
  "py_get (py_set k v d) k' = (if k' = k then Some v else py_get d k')"
  by (simp add: py_get_def py_set_def update_conv')

lemma py_get_Nil [pydict_simps]: "py_get [] k = None"
  by (simp add: py_get_def)

lemma py_keys_set [pydict_simps]:
  "py_keys (py_set k v d) = (if k \<in> set (py_keys d) then py_keys d else py_keys d @ [k])"
proof (induction d)
  case Nil
  then show ?case by (simp add: py_keys_def py_set_def)
next
  case (Cons p d)
  then show ?case by (cases p) (auto simp: py_keys_def py_set_def)
qed

lemma distinct_py_keys_set [pydict_simps]:
  "distinct (py_keys d) \<Longrightarrow> distinct (py_keys (py_set k v d))"
  by (simp add: py_keys_set)

lemma py_contains_get [pydict_simps]: "py_contains d k \<longleftrightarrow> py_get d k \<noteq> None"
  by (simp add: py_contains_def py_keys_def py_get_def map_of_eq_None_iff)

lemma py_set_same_key_length [pydict_simps]:
  "py_get d k \<noteq> None \<Longrightarrow> length (py_set k v d) = length d"
  by (induction d) (auto simp: py_get_def py_set_def split: if_splits)

lemma py_set_idem [pydict_simps]: "py_set k v (py_set k w d) = py_set k v d"
  by (simp add: py_set_def)

lemma quoted_length [simp]: "length (quoted s) = length s + 2"
  by (simp add: quoted_def)

lemma py_set_list_all [pydict_simps]: "list_all P d \<Longrightarrow> P (k, v) \<Longrightarrow> list_all P (py_set k v d)"
  by (induction d) (auto simp: py_set_def)

lemma py_get_del [pydict_simps]:
  "py_get (py_del k d) k' = (if k' = k then None else py_get d k')"
  by (simp add: py_get_def py_del_def delete_conv')

lemma in_py_keys_get: "k \<in> set (py_keys d) \<longleftrightarrow> py_get d k \<noteq> None"
  by (simp add: py_keys_def py_get_def map_of_eq_None_iff)

lemma py_keys_del [pydict_simps]: "set (py_keys (py_del k d)) = set (py_keys d) - {k}"
  by (induction d) (auto simp: py_keys_def py_del_def)

end
