(* ===== verification/Registry.thy ===== *)
theory Registry
  imports Prelude
begin

text \<open>
  The tool registry of \<open>src/registry.py\<close> (class \<open>ToolRegistry\<close>): a dictionary from tool
  names to callables. The callables are opaque to the registry and to the engine, so the
  registry is polymorphic in their type \<open>'f\<close>. \<open>get\<close> raises \<open>KeyError\<close> for a missing
  name; \<open>try_get\<close> returns \<open>None\<close>. The test \<open>if not tool\<close> of \<open>get\<close> is the test for
  \<open>None\<close>: a Python function object is always truthy.
\<close>

record 'f tool_registry =
  tools :: "(string, 'f) pydict"

text \<open>\<open>ToolRegistry.__init__\<close>\<close>

definition new_tool_registry :: "'f tool_registry" where
  "new_tool_registry = \<lparr>tools = []\<rparr>"

text \<open>\<open>ToolRegistry.register\<close>: \<open>self._tools[name] = func\<close>.\<close>

definition register :: "string \<Rightarrow> 'f \<Rightarrow> 'f tool_registry \<Rightarrow> 'f tool_registry" where
  "register name func reg = reg\<lparr>tools := py_set name func (tools reg)\<rparr>"

definition tool_not_registered_msg :: "string \<Rightarrow> string" where
  "tool_not_registered_msg name = ''Tool '' @ quoted name @ '' is not registered.''"

text \<open>\<open>ToolRegistry.get\<close>: the strict lookup.\<close>

definition get :: "string \<Rightarrow> 'f tool_registry \<Rightarrow> exc + 'f" where
  "get name reg =
     (case py_get (tools reg) name of
        None \<Rightarrow> Inl (Key_error (tool_not_registered_msg name))
      | Some tool \<Rightarrow> Inr tool)"

text \<open>\<open>ToolRegistry.try_get\<close>: the lookup that returns an absence marker.\<close>

definition try_get :: "string \<Rightarrow> 'f tool_registry \<Rightarrow> 'f option" where
  "try_get name reg = py_get (tools reg) name"

text \<open>\<open>ToolRegistry.list_tools\<close>: a copy of the dictionary; a value model needs no copy.\<close>

definition list_tools :: "'f tool_registry \<Rightarrow> (string, 'f) pydict" where
  "list_tools reg = tools reg"

subsection \<open>Lemmas\<close>

text \<open>Registered names are unique: every operation keeps the dictionary's keys distinct.\<close>

definition registry_wf :: "'f tool_registry \<Rightarrow> bool" where
  "registry_wf reg \<longleftrightarrow> distinct (py_keys (tools reg))"

lemma new_tool_registry_wf: "registry_wf new_tool_registry"
  by (simp add: registry_wf_def new_tool_registry_def py_keys_def)

text \<open>Registration keeps tool names unique: re-registering a name replaces its tool in place instead of adding a second entry.\<close>

theorem register_wf: "registry_wf reg \<Longrightarrow> registry_wf (register name func reg)"
  by (simp add: registry_wf_def register_def pydict_simps)

lemma try_get_register:
  "try_get n (register name func reg) = (if n = name then Some func else try_get n reg)"
  by (simp add: try_get_def register_def pydict_simps)

lemma get_try_get:
  "get name reg = (case try_get name reg of
                     None \<Rightarrow> Inl (Key_error (tool_not_registered_msg name))
                   | Some tool \<Rightarrow> Inr tool)"
  by (simp add: get_def try_get_def)

text \<open>C10. After \<open>register(name, func)\<close>, the strict lookup \<open>get(name)\<close> returns exactly \<open>func\<close>: the last registration under a name wins.\<close>

theorem get_register_same: "get name (register name func reg) = Inr func"
  by (simp add: get_try_get try_get_register)

lemma get_register_other:
  "n \<noteq> name \<Longrightarrow> get n (register name func reg) = get n reg"
  by (simp add: get_try_get try_get_register)

text \<open>C11. The strict lookup raises only for an unregistered name, and then raises \<open>KeyError\<close> with the message \<open>Tool '...' is not registered.\<close>.\<close>

theorem get_error_iff:
  "get name reg = Inl e \<longleftrightarrow> try_get name reg = None \<and> e = Key_error (tool_not_registered_msg name)"
  by (auto simp: get_try_get split: option.splits)

lemma list_tools_keys_register:
  "py_keys (list_tools (register name func reg)) =
     (if name \<in> set (py_keys (list_tools reg)) then py_keys (list_tools reg)
      else py_keys (list_tools reg) @ [name])"
  by (simp add: list_tools_def register_def pydict_simps)

end
