(* ===== verification/Engine.thy ===== *)
theory Engine
  imports Registry
begin

text \<open>
  The workflow engine of \<open>src/engine.py\<close>: node results, graph definitions, run records,
  the engine's two tables, and \<open>WorkflowEngine.run_graph\<close>, whose \<open>while\<close> loop is split
  into one iteration (\<open>loop_step\<close>) and the loop itself (\<open>run_loop\<close>, a
  \<open>partial_function (option)\<close>: a graph may loop for ever, and then the loop has no
  value). A node is a HOL function from the run's state and the tool registry to its
  effect: the state it leaves, the lines it passed to the logger (in order), and either
  the \<open>NodeResult\<close> it returned or the exception it raised. The logger appends to the run's
  log immediately, so a node that raises has still logged what it logged before.
\<close>

section \<open>Data\<close>

text \<open>\<open>NodeResult\<close> (engine.py, lines 12--17).\<close>

record node_result =
  next_node :: "string option"
  message :: "string option"

record node_effect =
  state_after :: state
  logged :: "string list"
  outcome :: "exc + node_result"

text \<open>\<open>NodeCallable\<close> (line 20): \<open>(state, tool registry, logger) \<rightarrow> NodeResult\<close>.\<close>

type_synonym 'f node = "state \<Rightarrow> 'f tool_registry \<Rightarrow> node_effect"

text \<open>\<open>GraphDefinition\<close> (lines 23--26).\<close>

record 'f graph_definition =
  start_node :: string
  nodes :: "(string, 'f node) pydict"

text \<open>\<open>GraphRun\<close> (lines 29--36); \<open>status\<close> is one of the four strings the code writes.\<close>

datatype run_status = Pending | Running | Completed | Failed

fun status_str :: "run_status \<Rightarrow> string" where
  "status_str Pending = ''pending''"
| "status_str Running = ''running''"
| "status_str Completed = ''completed''"
| "status_str Failed = ''failed''"

record graph_run =
  run_id :: string
  graph_id :: string
  state :: state
  logs :: "string list"
  status :: run_status
  current_node :: "string option"

text \<open>\<open>WorkflowEngine\<close> (lines 39--45): the graph table, the run table, the tool registry.\<close>

record 'f workflow_engine =
  graphs :: "(string, 'f graph_definition) pydict"
  runs :: "(string, graph_run) pydict"
  tool_registry :: "'f tool_registry"

definition new_engine :: "'f tool_registry \<Rightarrow> 'f workflow_engine" where
  "new_engine tr = \<lparr>graphs = [], runs = [], tool_registry = tr\<rparr>"

section \<open>Table operations\<close>

definition register_graph ::
  "string \<Rightarrow> 'f graph_definition \<Rightarrow> 'f workflow_engine \<Rightarrow> 'f workflow_engine \<times> 'f graph_definition" where
  "register_graph gid g eng = (eng\<lparr>graphs := py_set gid g (graphs eng)\<rparr>, g)"

definition has_graph :: "string \<Rightarrow> 'f workflow_engine \<Rightarrow> bool" where
  "has_graph gid eng \<longleftrightarrow> py_contains (graphs eng) gid"

definition get_run :: "string \<Rightarrow> 'f workflow_engine \<Rightarrow> graph_run option" where
  "get_run rid eng = py_get (runs eng) rid"

text \<open>\<open>_append_log\<close>; the closure \<open>_logger(run)\<close> calls it once per line.\<close>

definition append_log :: "graph_run \<Rightarrow> string \<Rightarrow> graph_run" where
  "append_log run msg = run\<lparr>logs := logs run @ [msg]\<rparr>"

definition logger :: "graph_run \<Rightarrow> string list \<Rightarrow> graph_run" where
  "logger run msgs = fold (\<lambda>m r. append_log r m) msgs run"

section \<open>The run loop\<close>

definition graph_not_registered_msg :: "string \<Rightarrow> string" where
  "graph_not_registered_msg gid = ''Graph '' @ quoted gid @ '' is not registered.''"

definition node_not_found_msg :: "string \<Rightarrow> string" where
  "node_not_found_msg cur = ''Node '' @ quoted cur @ '' not found; halting run.''"

definition executing_msg :: "string \<Rightarrow> string" where
  "executing_msg cur = ''Executing node '' @ quoted cur"

definition completed_msg :: string where
  "completed_msg = ''Run completed.''"

definition failed_msg :: "exc \<Rightarrow> string" where
  "failed_msg e = ''Run failed: '' @ exc_str e"

text \<open>How the \<open>try\<close> block of \<open>run_graph\<close> is left: the \<open>while\<close> loop ended (its test
  failed, or \<open>break\<close> after a missing node), or an exception was raised in it.\<close>

datatype loop_exit = Loop_finished | Loop_raised exc

text \<open>\<open>if result.message: logger(result.message)\<close> (lines 90--91).\<close>

definition log_message :: "graph_run \<Rightarrow> string option \<Rightarrow> graph_run" where
  "log_message run m = (if py_truthy m then append_log run (the m) else run)"

text \<open>
  One iteration of \<open>while current:\<close> (lines 80--93): \<open>Inl\<close> when the loop is left,
  \<open>Inr\<close> with the next value of \<open>current\<close> when it goes round again.
\<close>

definition loop_step ::
  "'f graph_definition \<Rightarrow> 'f tool_registry \<Rightarrow> graph_run \<Rightarrow> string option
   \<Rightarrow> (graph_run \<times> loop_exit) + (graph_run \<times> string option)" where
  "loop_step g tr run current =
     (if \<not> py_truthy current then Inl (run, Loop_finished)
      else
        (let cur = the current;
             run1 = run\<lparr>current_node := Some cur\<rparr>
         in case py_get (nodes g) cur of
              None \<Rightarrow> Inl (append_log run1 (node_not_found_msg cur), Loop_finished)
            | Some handler \<Rightarrow>
                (let run2 = append_log run1 (executing_msg cur);
                     eff = handler (state run2) tr;
                     run3 = logger (run2\<lparr>state := state_after eff\<rparr>) (logged eff)
                 in case outcome eff of
                      Inl e \<Rightarrow> Inl (run3, Loop_raised e)
                    | Inr result \<Rightarrow> Inr (log_message run3 (message result), next_node result))))"

partial_function (option) run_loop ::
  "'f graph_definition \<Rightarrow> 'f tool_registry \<Rightarrow> graph_run \<Rightarrow> string option
   \<Rightarrow> (graph_run \<times> loop_exit) option" where
  "run_loop g tr run current =
     (case loop_step g tr run current of
        Inl fin \<Rightarrow> Some fin
      | Inr nxt \<Rightarrow> run_loop g tr (fst nxt) (snd nxt))"

declare run_loop.simps [code]

text \<open>
  After the loop (lines 95--102): a normal exit completes the run and returns it; an
  \<open>Exception\<close> fails the run, logs it and is re-raised; a \<open>BaseException\<close> passes
  \<open>except Exception\<close> by and leaves the record as it was.
\<close>

fun finish_run :: "graph_run \<Rightarrow> loop_exit \<Rightarrow> graph_run \<times> (exc + graph_run)" where
  "finish_run run Loop_finished =
     (let r = append_log (run\<lparr>status := Completed, current_node := None\<rparr>) completed_msg in (r, Inr r))"
| "finish_run run (Loop_raised e) =
     (if is_exception e then (append_log (run\<lparr>status := Failed\<rparr>) (failed_msg e), Inl e)
      else (run, Inl e))"

text \<open>\<open>GraphRun(...)\<close> of lines 68--73, with \<open>state=dict(initial_state or {})\<close>.\<close>

definition new_run :: "string \<Rightarrow> string \<Rightarrow> state option \<Rightarrow> graph_run" where
  "new_run rid gid init =
     \<lparr>run_id = rid, graph_id = gid, state = (case init of None \<Rightarrow> [] | Some d \<Rightarrow> d),
      logs = [], status = Running, current_node = None\<rparr>"

text \<open>
  \<open>WorkflowEngine.run_graph\<close> (lines 63--102). The fresh identifier \<open>rid\<close> is the value
  \<open>uuid.uuid4()\<close> produced. The result is \<open>None\<close> when the loop does not end; otherwise
  the engine afterwards (the run table holds the record the loop mutated) and either the
  exception the call raises or the run it returns.
\<close>

definition run_graph ::
  "string \<Rightarrow> state option \<Rightarrow> string \<Rightarrow> 'f workflow_engine
   \<Rightarrow> ('f workflow_engine \<times> (exc + graph_run)) option" where
  "run_graph gid init rid eng =
     (case py_get (graphs eng) gid of
        None \<Rightarrow> Some (eng, Inl (Key_error (graph_not_registered_msg gid)))
      | Some g \<Rightarrow>
          (let run = new_run rid gid init;
               eng1 = eng\<lparr>runs := py_set rid run (runs eng)\<rparr>
           in map_option
                (\<lambda>(run', ex). (eng1\<lparr>runs := py_set rid (fst (finish_run run' ex)) (runs eng1)\<rparr>,
                               snd (finish_run run' ex)))
                (run_loop g (tool_registry eng) run (Some (start_node g)))))"

section \<open>Reference semantics of the loop\<close>

text \<open>
  What one visit of a node does to the run record, in the order \<open>run_graph\<close> does it:
  \<open>current_node\<close> is set, the line \<open>Executing node '...'\<close> is logged, the node runs on
  the run's state, and the lines the node logged follow.
\<close>

definition visit_run :: "graph_run \<Rightarrow> string \<Rightarrow> node_effect \<Rightarrow> graph_run" where
  "visit_run run c eff =
     run\<lparr>current_node := Some c, state := state_after eff,
         logs := logs run @ executing_msg c # logged eff\<rparr>"

text \<open>
  A big-step semantics of the loop, one rule per way an iteration can go: the test of
  \<open>while current:\<close> fails; the node is missing (log and \<open>break\<close>); the node raises; the
  node returns and the loop goes on with its \<open>next_node\<close>.
\<close>

inductive run_exec ::
  "'f graph_definition \<Rightarrow> 'f tool_registry \<Rightarrow> graph_run \<Rightarrow> string option
   \<Rightarrow> graph_run \<times> loop_exit \<Rightarrow> bool"
  for g :: "'f graph_definition" and tr :: "'f tool_registry" where
  stop: "\<not> py_truthy cur \<Longrightarrow> run_exec g tr run cur (run, Loop_finished)"
| missing: "c \<noteq> [] \<Longrightarrow> py_get (nodes g) c = None \<Longrightarrow>
    run_exec g tr run (Some c)
      (run\<lparr>current_node := Some c, logs := logs run @ [node_not_found_msg c]\<rparr>, Loop_finished)"
| raised: "c \<noteq> [] \<Longrightarrow> py_get (nodes g) c = Some h \<Longrightarrow> outcome (h (state run) tr) = Inl e \<Longrightarrow>
    run_exec g tr run (Some c) (visit_run run c (h (state run) tr), Loop_raised e)"
| continue: "c \<noteq> [] \<Longrightarrow> py_get (nodes g) c = Some h \<Longrightarrow> outcome (h (state run) tr) = Inr r \<Longrightarrow>
    run_exec g tr (log_message (visit_run run c (h (state run) tr)) (message r)) (next_node r) fin \<Longrightarrow>
    run_exec g tr run (Some c) fin"

section \<open>Termination and divergence conditions\<close>

text \<open>
  The engine does not detect cycles. A graph is \<open>ranked_by\<close> a ranking of its node names
  when every transition a node can return, to a node that exists, goes to a node of smaller
  rank: then every run ends. A set \<open>K\<close> of node names is a trap (\<open>loops_within\<close>) when
  every node of \<open>K\<close> exists, never raises and always names a node of \<open>K\<close> next: then a
  run that reaches \<open>K\<close> never ends (a self-loop is the case \<open>K = {c}\<close>).
\<close>

definition ranked_by :: "'f graph_definition \<Rightarrow> 'f tool_registry \<Rightarrow> (string \<Rightarrow> nat) \<Rightarrow> bool" where
  "ranked_by g tr rk \<longleftrightarrow>
     (\<forall>c h s r. py_get (nodes g) c = Some h \<longrightarrow> outcome (h s tr) = Inr r \<longrightarrow>
        py_truthy (next_node r) \<longrightarrow> py_get (nodes g) (the (next_node r)) \<noteq> None \<longrightarrow>
        rk (the (next_node r)) < rk c)"

definition loops_within :: "'f graph_definition \<Rightarrow> 'f tool_registry \<Rightarrow> string set \<Rightarrow> bool" where
  "loops_within g tr K \<longleftrightarrow>
     (\<forall>c\<in>K. c \<noteq> [] \<and> (\<exists>h. py_get (nodes g) c = Some h \<and>
        (\<forall>s. \<exists>r. outcome (h s tr) = Inr r \<and> next_node r \<in> Some ` K)))"

section \<open>One iteration\<close>

lemma logger_logs: "logger run msgs = run\<lparr>logs := logs run @ msgs\<rparr>"
  by (induction msgs arbitrary: run) (simp_all add: logger_def append_log_def)

lemma loop_step_stop: "\<not> py_truthy cur \<Longrightarrow> loop_step g tr run cur = Inl (run, Loop_finished)"
  by (simp add: loop_step_def)

lemma loop_step_missing:
  "c \<noteq> [] \<Longrightarrow> py_get (nodes g) c = None \<Longrightarrow>
   loop_step g tr run (Some c) =
     Inl (run\<lparr>current_node := Some c, logs := logs run @ [node_not_found_msg c]\<rparr>, Loop_finished)"
  by (simp add: loop_step_def append_log_def)

lemma loop_step_node:
  "c \<noteq> [] \<Longrightarrow> py_get (nodes g) c = Some h \<Longrightarrow>
   loop_step g tr run (Some c) =
     (case outcome (h (state run) tr) of
        Inl e \<Rightarrow> Inl (visit_run run c (h (state run) tr), Loop_raised e)
      | Inr r \<Rightarrow> Inr (log_message (visit_run run c (h (state run) tr)) (message r), next_node r))"
  by (simp add: loop_step_def Let_def append_log_def logger_logs visit_run_def split: sum.split)

lemma loop_step_Inl_exec: "loop_step g tr run cur = Inl fin \<Longrightarrow> run_exec g tr run cur fin"
proof (cases "py_truthy cur")
  case False
  then show "loop_step g tr run cur = Inl fin \<Longrightarrow> run_exec g tr run cur fin"
    by (auto simp: loop_step_stop intro: run_exec.stop)
next
  case True
  then obtain c where c: "cur = Some c" "c \<noteq> []" by (cases cur) auto
  assume step: "loop_step g tr run cur = Inl fin"
  show ?thesis
  proof (cases "py_get (nodes g) c")
    case None
    with c step show ?thesis by (auto simp: loop_step_missing intro: run_exec.missing)
  next
    case (Some h)
    with c step show ?thesis
      by (auto simp: loop_step_node split: sum.splits intro: run_exec.raised)
  qed
qed

lemma loop_step_Inr_exec:
  "loop_step g tr run cur = Inr (run', cur') \<Longrightarrow> run_exec g tr run' cur' fin \<Longrightarrow> run_exec g tr run cur fin"
  by (cases cur) (auto simp: loop_step_def Let_def append_log_def logger_logs visit_run_def split: option.splits sum.splits if_splits intro: run_exec.continue)

lemma run_exec_loop_step:
  assumes "run_exec g tr run cur fin"
  shows "loop_step g tr run cur = Inl fin \<or>
         (\<exists>run' cur'. loop_step g tr run cur = Inr (run', cur') \<and> run_exec g tr run' cur' fin)"
  using assms
  by cases (auto simp: loop_step_stop loop_step_missing loop_step_node)

lemma run_loop_imp_exec:
  assumes "run_loop g tr run cur = Some fin"
  shows "run_exec g tr run cur fin"
proof (rule run_loop.raw_induct [where P = "\<lambda>g tr run cur fin. run_exec g tr run cur fin", OF _ assms])
  fix f g tr run cur fin
  assume IH: "\<And>g tr run cur fin. f g tr run cur = Some fin \<Longrightarrow> run_exec g tr run cur fin"
    and eq: "(case loop_step g tr run cur of Inl fin \<Rightarrow> Some fin
              | Inr nxt \<Rightarrow> f g tr (fst nxt) (snd nxt)) = Some fin"
  show "run_exec g tr run cur fin"
    using eq by (auto split: sum.splits intro: loop_step_Inl_exec loop_step_Inr_exec [OF _ IH])
qed

text \<open>The executable loop and the reference semantics agree: \<open>run_loop\<close> returns exactly
  the outcomes \<open>run_exec\<close> derives.\<close>

theorem run_loop_run_exec: "run_loop g tr run cur = Some fin \<longleftrightarrow> run_exec g tr run cur fin"
proof
  assume "run_loop g tr run cur = Some fin"
  then show "run_exec g tr run cur fin" by (rule run_loop_imp_exec)
next
  assume "run_exec g tr run cur fin"
  then show "run_loop g tr run cur = Some fin"
  proof (induction rule: run_exec.induct)
    case (stop cur run)
    then show ?case by (simp add: run_loop.simps loop_step_stop)
  next
    case (missing c run)
    then show ?case by (simp add: run_loop.simps loop_step_missing)
  next
    case (raised c h run e)
    then show ?case by (simp add: run_loop.simps loop_step_node)
  next
    case (continue c h run r fin)
    then show ?case by (simp add: run_loop.simps[of g tr run] loop_step_node)
  qed
qed

section \<open>Frame, termination, divergence\<close>

lemma run_exec_frame:
  "run_exec g tr run cur fin \<Longrightarrow>
   run_id (fst fin) = run_id run \<and> graph_id (fst fin) = graph_id run \<and>
   status (fst fin) = status run \<and> prefix (logs run) (logs (fst fin))"
proof (induction rule: run_exec.induct)
  case (continue c h run r fin)
  then show ?case
    by (auto simp: visit_run_def log_message_def append_log_def elim: prefix_order.trans[rotated])
qed (auto simp: visit_run_def)

lemma ranked_by_run_exec:
  assumes rk: "ranked_by g tr rk"
  shows "\<exists>fin. run_exec g tr run cur fin"
proof -
  define m where "m cur = (if py_truthy cur \<and> py_get (nodes g) (the cur) \<noteq> None then Suc (rk (the cur)) else 0)" for cur
  have "\<forall>run cur. m cur = n \<longrightarrow> (\<exists>fin. run_exec g tr run cur fin)" for n
  proof (induction n rule: less_induct)
    case (less n)
    show ?case
    proof (intro allI impI)
      fix run cur assume mn: "m cur = n"
      show "\<exists>fin. run_exec g tr run cur fin"
      proof (cases "py_truthy cur")
        case False
        then show ?thesis by (blast intro: run_exec.stop)
      next
        case True
        then obtain c where c: "cur = Some c" "c \<noteq> []" by (cases cur) auto
        show ?thesis
        proof (cases "py_get (nodes g) c")
          case None
          with c show ?thesis by (blast intro: run_exec.missing)
        next
          case (Some h)
          show ?thesis
          proof (cases "outcome (h (state run) tr)")
            case (Inl e)
            with c Some show ?thesis by (blast intro: run_exec.raised)
          next
            case (Inr r)
            have "m (next_node r) < n"
              using rk Some Inr c mn unfolding m_def ranked_by_def by fastforce
            with less obtain fin where
              "run_exec g tr (log_message (visit_run run c (h (state run) tr)) (message r)) (next_node r) fin"
              by blast
            with c Some Inr show ?thesis by (blast intro: run_exec.continue)
          qed
        qed
      qed
    qed
  qed
  then show ?thesis by blast
qed


theorem run_loop_terminates:
  "ranked_by g tr rk \<Longrightarrow> \<exists>fin. run_loop g tr run cur = Some fin"
  using ranked_by_run_exec by (simp add: run_loop_run_exec)

lemma loops_within_node:
  assumes "loops_within g tr K" "c \<in> K"
  obtains h where "c \<noteq> []" "py_get (nodes g) c = Some h"
    "\<And>s. \<exists>r. outcome (h s tr) = Inr r \<and> next_node r \<in> Some ` K"
  using assms unfolding loops_within_def by blast

lemma loops_within_no_exec:
  "run_exec g tr run cur fin \<Longrightarrow> loops_within g tr K \<Longrightarrow> cur \<in> Some ` K \<Longrightarrow> False"
proof (induction rule: run_exec.induct)
  case (stop cur run)
  then show ?case by (auto elim: loops_within_node)
next
  case (missing c run)
  then show ?case by (auto elim: loops_within_node)
next
  case (raised c h run e)
  then obtain h' where "py_get (nodes g) c = Some h'"
    and nxt: "\<And>s. \<exists>r. outcome (h' s tr) = Inr r \<and> next_node r \<in> Some ` K"
    by (auto elim: loops_within_node)
  with raised.hyps(2,3) show ?case using nxt [of "state run"] by auto
next
  case (continue c h run r fin)
  from continue.prems obtain c' where "c' \<in> K" "Some c = Some c'" by blast
  with continue.prems(1) obtain h' where "py_get (nodes g) c = Some h'"
    and nxt: "\<And>s. \<exists>r. outcome (h' s tr) = Inr r \<and> next_node r \<in> Some ` K"
    by (auto elim: loops_within_node)
  with continue.hyps(2,3) have "next_node r \<in> Some ` K"
    using nxt [of "state run"] by auto
  with continue.prems(1) show ?case by (rule continue.IH)
qed

theorem run_loop_diverges:
  "loops_within g tr K \<Longrightarrow> c \<in> K \<Longrightarrow> run_loop g tr run (Some c) = None"
  using loops_within_no_exec [of g tr run "Some c" _ K]
  by (cases "run_loop g tr run (Some c)") (auto simp: run_loop_run_exec)

section \<open>run_graph\<close>

lemma run_graph_registered:
  "py_get (graphs eng) gid = Some g \<Longrightarrow>
   run_graph gid init rid eng =
     map_option
       (\<lambda>(run', ex). (eng\<lparr>runs := py_set rid (fst (finish_run run' ex)) (runs eng)\<rparr>,
                      snd (finish_run run' ex)))
       (run_loop g (tool_registry eng) (new_run rid gid init) (Some (start_node g)))"
  by (simp add: run_graph_def pydict_simps)

lemma run_graph_SomeE:
  assumes "run_graph gid init rid eng = Some (eng', res)" "has_graph gid eng"
  obtains g run' ex where "py_get (graphs eng) gid = Some g"
    "run_exec g (tool_registry eng) (new_run rid gid init) (Some (start_node g)) (run', ex)"
    "eng' = eng\<lparr>runs := py_set rid (fst (finish_run run' ex)) (runs eng)\<rparr>"
    "res = snd (finish_run run' ex)"
proof -
  from assms(2) obtain g where g: "py_get (graphs eng) gid = Some g"
    by (auto simp: has_graph_def pydict_simps)
  with assms(1) obtain run' ex where
    "run_loop g (tool_registry eng) (new_run rid gid init) (Some (start_node g)) = Some (run', ex)"
    "eng' = eng\<lparr>runs := py_set rid (fst (finish_run run' ex)) (runs eng)\<rparr>"
    "res = snd (finish_run run' ex)"
    by (auto simp: run_graph_registered)
  with g show ?thesis using that by (auto simp: run_loop_run_exec)
qed

lemma run_exec_raised_current:
  "run_exec g tr run cur fin \<Longrightarrow> snd fin = Loop_raised e \<Longrightarrow> current_node (fst fin) \<noteq> None"
  by (induction rule: run_exec.induct) (auto simp: visit_run_def)

lemma new_run_fields [simp]:
  "run_id (new_run rid gid init) = rid" "graph_id (new_run rid gid init) = gid"
  "status (new_run rid gid init) = Running" "logs (new_run rid gid init) = []"
  by (simp_all add: new_run_def)

lemma has_graph_get: "has_graph gid eng \<longleftrightarrow> py_get (graphs eng) gid \<noteq> None"
  by (simp add: has_graph_def pydict_simps)

lemma run_graph_Inr_registered:
  "run_graph gid init rid eng = Some (eng', Inr r) \<Longrightarrow> has_graph gid eng"
  by (auto simp: run_graph_def has_graph_get split: option.splits)

text \<open>C3. Running an unregistered graph raises \<open>KeyError\<close> with the message \<open>Graph '...' is not registered.\<close> and leaves the engine unchanged: no run record is created.\<close>

theorem run_graph_unregistered:
  "\<not> has_graph gid eng \<Longrightarrow>
   run_graph gid init rid eng = Some (eng, Inl (Key_error (graph_not_registered_msg gid)))"
  by (simp add: has_graph_get run_graph_def)

text \<open>For a registered graph, \<open>run_graph\<close> returns exactly when the reference big-step semantics \<open>run_exec\<close> of the loop derives an outcome from the fresh run at the start node, and then the run table holds that outcome's record after the completion or failure epilogue.\<close>

theorem run_graph_refines_exec:
  "py_get (graphs eng) gid = Some g \<Longrightarrow>
   run_graph gid init rid eng = Some (eng', res) \<longleftrightarrow>
   (\<exists>run' ex. run_exec g (tool_registry eng) (new_run rid gid init) (Some (start_node g)) (run', ex) \<and>
      eng' = eng\<lparr>runs := py_set rid (fst (finish_run run' ex)) (runs eng)\<rparr> \<and>
      res = snd (finish_run run' ex))"
  by (auto simp: run_graph_registered run_loop_run_exec)

text \<open>C4. One iteration on an existing node that returns logs, in this order, \<open>Executing node '...'\<close>, the lines the node itself logged, and the node's message if it is a non-empty string; the run's state becomes the state the node left, the current node is the visited one, and the loop goes on with the node's \<open>next_node\<close>.\<close>

theorem loop_step_log_order:
  assumes "c \<noteq> []" "py_get (nodes g) c = Some h" "outcome (h (state run) tr) = Inr r"
    and "loop_step g tr run (Some c) = Inr (run', nxt)"
  shows "logs run' = logs run @ [executing_msg c] @ logged (h (state run) tr) @
                     (if py_truthy (message r) then [the (message r)] else []) \<and>
         state run' = state_after (h (state run) tr) \<and> current_node run' = Some c \<and>
         nxt = next_node r"
  using assms
  by (auto simp: loop_step_node visit_run_def log_message_def append_log_def split: if_splits)

text \<open>C1. A run of a registered graph that returns normally is stored under its run id in the run table, keeps its run and graph ids, has status completed and no current node, and its last log line is \<open>Run completed.\<close>.\<close>

theorem run_graph_completed:
  assumes "run_graph gid init rid eng = Some (eng', Inr r)"
  shows "get_run rid eng' = Some r \<and> run_id r = rid \<and> graph_id r = gid \<and>
         status r = Completed \<and> current_node r = None \<and> last (logs r) = completed_msg"
proof -
  from assms have "has_graph gid eng" by (rule run_graph_Inr_registered)
  with assms obtain g run' ex where
    ex: "run_exec g (tool_registry eng) (new_run rid gid init) (Some (start_node g)) (run', ex)"
    and eng': "eng' = eng\<lparr>runs := py_set rid (fst (finish_run run' ex)) (runs eng)\<rparr>"
    and res: "Inr r = snd (finish_run run' ex)"
    by (rule run_graph_SomeE)
  from run_exec_frame [OF ex] have "run_id run' = rid" "graph_id run' = gid" by simp_all
  moreover from res have "ex = Loop_finished"
    by (cases ex) (simp_all split: if_splits)
  ultimately show ?thesis using res eng'
    by (simp add: get_run_def append_log_def completed_msg_def pydict_simps Let_def)
qed

text \<open>A call of \<open>run_graph\<close> changes only the record of its own run id: every other run record, the graph table and the tool registry are unchanged.\<close>

theorem run_graph_other_runs:
  assumes "run_graph gid init rid eng = Some (eng', res)" "rid' \<noteq> rid"
  shows "get_run rid' eng' = get_run rid' eng \<and> graphs eng' = graphs eng \<and>
         tool_registry eng' = tool_registry eng"
proof (cases "has_graph gid eng")
  case True
  with assms(1) obtain g run' ex where
    "eng' = eng\<lparr>runs := py_set rid (fst (finish_run run' ex)) (runs eng)\<rparr>"
    by (rule run_graph_SomeE)
  with assms(2) show ?thesis by (simp add: get_run_def pydict_simps)
next
  case False
  with assms(1) show ?thesis
    by (auto simp: run_graph_def has_graph_get get_run_def pydict_simps split: option.splits)
qed

text \<open>C5. A graph whose (non-empty) start node is not one of its nodes completes at once with two log lines, the missing-node line and \<open>Run completed.\<close>, no node invoked and the initial state kept.\<close>

theorem run_graph_missing_start:
  assumes "py_get (graphs eng) gid = Some g" "start_node g \<noteq> []"
    "py_get (nodes g) (start_node g) = None"
  shows "run_graph gid init rid eng =
           (let r = (new_run rid gid init)\<lparr>logs := [node_not_found_msg (start_node g), completed_msg],
                                          status := Completed\<rparr>
            in Some (eng\<lparr>runs := py_set rid r (runs eng)\<rparr>, Inr r))"
  using assms
  by (simp add: run_graph_registered run_loop.simps loop_step_missing append_log_def Let_def new_run_def)

text \<open>C9. A graph whose start node is the empty string ends the loop before any iteration: the run completes with the single log line \<open>Run completed.\<close>.\<close>

theorem run_graph_empty_start:
  assumes "py_get (graphs eng) gid = Some g" "start_node g = []"
  shows "run_graph gid init rid eng =
           (let r = (new_run rid gid init)\<lparr>logs := [completed_msg], status := Completed\<rparr>
            in Some (eng\<lparr>runs := py_set rid r (runs eng)\<rparr>, Inr r))"
  using assms
  by (simp add: run_graph_registered run_loop.simps loop_step_stop append_log_def Let_def new_run_def)

text \<open>C7. When the graph's transitions decrease a ranking of node names (an acyclic graph), \<open>run_graph\<close> returns, with a result or an exception.\<close>

theorem run_graph_terminates:
  "py_get (graphs eng) gid = Some g \<Longrightarrow> ranked_by g (tool_registry eng) rk \<Longrightarrow>
   \<exists>eng' res. run_graph gid init rid eng = Some (eng', res)"
  using run_loop_terminates [of g "tool_registry eng" rk "new_run rid gid init" "Some (start_node g)"]
  by (auto simp: run_graph_registered)

text \<open>C6. The loop has no iteration bound: when the start node lies in a set of nodes that never raise and always name a node of the set next (for instance a self-loop), \<open>run_graph\<close> never returns.\<close>

theorem run_graph_diverges:
  "py_get (graphs eng) gid = Some g \<Longrightarrow> loops_within g (tool_registry eng) K \<Longrightarrow>
   start_node g \<in> K \<Longrightarrow> run_graph gid init rid eng = None"
  by (simp add: run_graph_registered run_loop_diverges)

section \<open>What a call changes in the tables\<close>

lemma has_graph_register:
  "has_graph x (fst (register_graph gid g eng)) \<longleftrightarrow> x = gid \<or> has_graph x eng"
  by (auto simp: has_graph_get register_graph_def pydict_simps)

lemma run_graph_runs:
  assumes "run_graph gid init rid eng = Some (eng', res)"
  shows "eng' = eng \<or>
         (\<exists>r. eng' = eng\<lparr>runs := py_set rid r (runs eng)\<rparr> \<and> run_id r = rid \<and> graph_id r = gid \<and>
              has_graph gid eng \<and> status r \<noteq> Pending)"
proof (cases "has_graph gid eng")
  case True
  with assms obtain g run' ex where
    ex: "run_exec g (tool_registry eng) (new_run rid gid init) (Some (start_node g)) (run', ex)"
    and eng': "eng' = eng\<lparr>runs := py_set rid (fst (finish_run run' ex)) (runs eng)\<rparr>"
    by (rule run_graph_SomeE)
  from run_exec_frame [OF ex] have "run_id run' = rid" "graph_id run' = gid" "status run' = Running"
    by simp_all
  then have "run_id (fst (finish_run run' ex)) = rid \<and> graph_id (fst (finish_run run' ex)) = gid \<and>
             status (fst (finish_run run' ex)) \<noteq> Pending"
    by (cases ex) (simp_all add: append_log_def Let_def)
  with eng' True show ?thesis by blast
next
  case False
  with assms show ?thesis by (auto simp: run_graph_def has_graph_get split: option.splits)
qed


end
