(* ===== verification/Smells.thy ===== *)
theory Smells
  imports Complex_Main Registry
begin

text \<open>
  The two heuristic tools of \<open>src/registry.py\<close> (\<open>_detect_smells\<close>,
  \<open>_estimate_length_complexity\<close>) and \<open>register_default_tools\<close>. Python's string
  methods they use are modelled for code points below 256, the range of a HOL \<open>char\<close>:
  \<open>str.splitlines\<close> (its line boundaries \<open>\n\<close>, \<open>\r\<close>, \<open>\r\n\<close>, \<open>\v\<close>, \<open>\f\<close>,
  \<open>\x1c\<close>--\<open>\x1e\<close>, \<open>\x85\<close>), \<open>str.strip\<close> (the whitespace of \<open>str.isspace\<close>),
  the substring test \<open>in\<close> and \<open>str.startswith\<close>.
\<close>

section \<open>Python string methods\<close>

definition is_line_boundary :: "char \<Rightarrow> bool" where
  "is_line_boundary c \<longleftrightarrow>
     (let n = of_char c :: nat in (0x0A \<le> n \<and> n \<le> 0x0D) \<or> (0x1C \<le> n \<and> n \<le> 0x1E) \<or> n = 0x85)"

definition is_py_space :: "char \<Rightarrow> bool" where
  "is_py_space c \<longleftrightarrow>
     (let n = of_char c :: nat in (0x09 \<le> n \<and> n \<le> 0x0D) \<or> (0x1C \<le> n \<and> n \<le> 0x20) \<or>
        n = 0x85 \<or> n = 0xA0)"

text \<open>\<open>str.splitlines()\<close>: \<open>cur\<close> holds the current line reversed; \<open>\r\n\<close> is one boundary;
  a boundary at the very end opens no empty last line.\<close>

fun split_acc :: "string \<Rightarrow> string \<Rightarrow> string list" where
  "split_acc cur [] = (if cur = [] then [] else [rev cur])"
| "split_acc cur [c] = (if is_line_boundary c then [rev cur] else [rev (c # cur)])"
| "split_acc cur (c # d # cs) =
     (if c = CHR 0x0D \<and> d = CHR 0x0A then rev cur # split_acc [] cs
      else if is_line_boundary c then rev cur # split_acc [] (d # cs)
      else split_acc (c # cur) (d # cs))"

definition py_splitlines :: "string \<Rightarrow> string list" where
  "py_splitlines s = split_acc [] s"

definition py_strip :: "string \<Rightarrow> string" where
  "py_strip s = rev (dropWhile is_py_space (rev (dropWhile is_py_space s)))"

text \<open>\<open>needle in hay\<close> for strings.\<close>

fun py_in :: "string \<Rightarrow> string \<Rightarrow> bool" where
  "py_in n [] = (n = [])"
| "py_in n (c # h) = (prefix n (c # h) \<or> py_in n h)"

section \<open>The tools\<close>

definition no_code_msg :: string where "no_code_msg = ''No code provided.''"
definition todo_msg :: string where "todo_msg = ''Found TODO/FIXME markers.''"
definition long_lines_msg :: string where "long_lines_msg = ''Lines exceed 120 characters.''"
definition comment_msg :: string where "comment_msg = ''Comment density is unusually high.''"
definition print_msg :: string where "print_msg = ''Uses print statements instead of logging.''"

text \<open>\<open>lines = [line.strip() for line in code.splitlines() if line.strip()]\<close>\<close>

definition code_lines :: "string \<Rightarrow> string list" where
  "code_lines code = [py_strip l. l \<leftarrow> py_splitlines code, py_strip l \<noteq> []]"

text \<open>
  \<open>_detect_smells\<close> (lines 28--44). The comment test compares an \<open>int\<close> with the float
  \<open>len(lines) * 0.5\<close>; the product is exact, so the comparison is the one over the reals.
\<close>

definition detect_smells :: "string \<Rightarrow> string list" where
  "detect_smells code =
     (let lines = code_lines code in
      if lines = [] then [no_code_msg]
      else (if list_ex (\<lambda>l. py_in ''TODO'' l \<or> py_in ''FIXME'' l) lines then [todo_msg] else []) @
           (if list_ex (\<lambda>l. 120 < length l) lines then [long_lines_msg] else []) @
           (if (of_nat (length (filter (prefix ''#'') lines)) :: real) > of_nat (length lines) * 0.5
            then [comment_msg] else []) @
           (if py_in ''print('' code \<and> \<not> py_in ''logging'' code then [print_msg] else []))"

text \<open>\<open>_estimate_length_complexity\<close> (lines 47--49).\<close>

definition estimate_length_complexity :: "string \<Rightarrow> nat" where
  "estimate_length_complexity code =
     min 100 (max 5 (length [ln \<leftarrow> py_splitlines code. py_strip ln \<noteq> []] div 2))"

text \<open>The registered callables, as a datatype with the function each one is.\<close>

datatype default_tool = Detect_smells | Estimate_length_complexity

datatype tool_output = Smells "string list" | Score nat

fun call_default_tool :: "default_tool \<Rightarrow> string \<Rightarrow> tool_output" where
  "call_default_tool Detect_smells code = Smells (detect_smells code)"
| "call_default_tool Estimate_length_complexity code = Score (estimate_length_complexity code)"

text \<open>\<open>register_default_tools\<close> (lines 52--53).\<close>

definition register_default_tools :: "default_tool tool_registry \<Rightarrow> default_tool tool_registry" where
  "register_default_tools reg =
     register ''estimate_length_complexity'' Estimate_length_complexity
       (register ''detect_smells'' Detect_smells reg)"

section \<open>Lemmas\<close>

lemma split_acc_boundary:
  "is_line_boundary c \<Longrightarrow> c \<noteq> CHR 0x0D \<Longrightarrow> split_acc cur (c # cs) = rev cur # split_acc [] cs"
  by (cases cs) simp_all

lemma split_acc_other:
  "\<not> is_line_boundary c \<Longrightarrow> split_acc cur (c # cs) = split_acc (c # cur) cs"
  by (cases cs) (auto simp: is_line_boundary_def)

lemma newline_boundary: "is_line_boundary (CHR 0x0A)"
  by (simp add: is_line_boundary_def)

lemma split_acc_line:
  "\<not> list_ex is_line_boundary l \<Longrightarrow>
   split_acc cur (l @ CHR 0x0A # rest) = (rev cur @ l) # split_acc [] rest"
  by (induction l arbitrary: cur) (simp_all add: split_acc_boundary newline_boundary split_acc_other)

text \<open>Splitting text made of lines that contain no line boundary, each followed by a newline, gives back exactly those lines: \<open>splitlines\<close> inverts joining with newlines.\<close>

theorem py_splitlines_roundtrip:
  "list_all (\<lambda>l. \<not> list_ex is_line_boundary l) ls \<Longrightarrow>
   py_splitlines (concat (map (\<lambda>l. l @ [CHR 0x0A]) ls)) = ls"
  unfolding py_splitlines_def
  by (induction ls) (simp_all add: split_acc_line)

lemma split_acc_no_boundary:
  "l \<in> set (split_acc cur s) \<Longrightarrow> \<not> list_ex is_line_boundary cur \<Longrightarrow> \<not> list_ex is_line_boundary l"
  by (induction cur s rule: split_acc.induct) (auto split: if_splits simp: is_line_boundary_def)

text \<open>No line that \<open>splitlines\<close> returns contains a line-boundary character: every boundary, \<open>\r\n\<close> included, ends a line.\<close>

theorem py_splitlines_lines:
  "l \<in> set (py_splitlines s) \<Longrightarrow> \<not> list_ex is_line_boundary l"
  unfolding py_splitlines_def by (erule split_acc_no_boundary) simp

text \<open>The substring test \<open>needle in hay\<close> holds exactly when the needle is a contiguous sublist of the haystack.\<close>

theorem py_in_sublist: "py_in n h \<longleftrightarrow> sublist n h"
  by (induction h) (simp_all add: sublist_Cons_right)

lemma dropWhile_idem: "dropWhile P (dropWhile P xs) = dropWhile P xs"
  by (induction xs) auto

lemma dropWhile_hd: "dropWhile P xs \<noteq> [] \<Longrightarrow> \<not> P (hd (dropWhile P xs))"
  by (induction xs) auto

lemma rstrip_prefix: "rev (dropWhile P (rev xs)) = take (length xs - length (takeWhile P (rev xs))) xs"
  by (simp add: dropWhile_eq_drop rev_drop)

lemma rstrip_hd:
  "rev (dropWhile P (rev xs)) \<noteq> [] \<Longrightarrow> hd (rev (dropWhile P (rev xs))) = hd xs"
  by (simp add: rstrip_prefix hd_take del: rev_is_Nil_conv)

theorem py_strip_ends:
  assumes "py_strip s \<noteq> []"
  shows "\<not> is_py_space (hd (py_strip s)) \<and> \<not> is_py_space (last (py_strip s))"
proof
  let ?t = "dropWhile is_py_space s"
  from assms have t: "?t \<noteq> []"
    unfolding py_strip_def by (metis Nil_is_rev_conv dropWhile.simps(1))
  from assms have "hd (py_strip s) = hd ?t" by (simp add: py_strip_def rstrip_hd del: rev_is_Nil_conv)
  with t show "\<not> is_py_space (hd (py_strip s))" by (simp add: dropWhile_hd)
  from assms have "dropWhile is_py_space (rev ?t) \<noteq> []" by (simp add: py_strip_def)
  then show "\<not> is_py_space (last (py_strip s))"
    by (simp add: py_strip_def last_rev dropWhile_hd)
qed

text \<open>Stripping is idempotent: \<open>s.strip().strip() == s.strip()\<close>.\<close>

theorem py_strip_idem: "py_strip (py_strip s) = py_strip s"
proof (cases "py_strip s = []")
  case True
  then show ?thesis by (simp only: True) (simp add: py_strip_def)
next
  case False
  then have "dropWhile is_py_space (py_strip s) = py_strip s"
    using py_strip_ends [OF False] by (simp add: dropWhile_eq_self_iff)
  then show ?thesis
    by (metis py_strip_def dropWhile_idem rev_rev_ident)
qed

lemma comment_threshold:
  "((of_nat c :: real) > of_nat n * 0.5) \<longleftrightarrow> n < 2 * c"
  by linarith

text \<open>\<open>_estimate_length_complexity\<close> always returns a score between 5 and 100.\<close>

theorem estimate_bounds: "5 \<le> estimate_length_complexity code \<and> estimate_length_complexity code \<le> 100"
  by (simp add: estimate_length_complexity_def)

text \<open>C13. \<open>_detect_smells\<close> reports \<open>No code provided.\<close> exactly when the code has no non-blank line, and then it reports that smell alone: its result is exactly \<open>["No code provided."]\<close> when, and only when, every line is blank.\<close>

theorem detect_smells_no_code:
  "(no_code_msg \<in> set (detect_smells code) \<longleftrightarrow> code_lines code = []) \<and>
   (detect_smells code = [no_code_msg] \<longleftrightarrow> code_lines code = [])"
  by (auto simp: detect_smells_def Let_def no_code_msg_def todo_msg_def long_lines_msg_def comment_msg_def print_msg_def)

text \<open>C14. \<open>_detect_smells\<close> reports each smell at most once and at most four smells.\<close>

theorem detect_smells_bounds: "distinct (detect_smells code) \<and> length (detect_smells code) \<le> 4"
  by (simp add: detect_smells_def Let_def no_code_msg_def todo_msg_def long_lines_msg_def comment_msg_def print_msg_def)

text \<open>C15. On code with a non-blank line, the comment-density smell is reported exactly when more than half the non-blank lines start with \<open>#\<close>: the comparison of the count with the float \<open>len(lines) * 0.5\<close> is the integer comparison \<open>len(lines) < 2 * count\<close>.\<close>

theorem detect_smells_comment:
  "code_lines code \<noteq> [] \<Longrightarrow>
   comment_msg \<in> set (detect_smells code) \<longleftrightarrow>
   length (code_lines code) < 2 * length (filter (prefix ''#'') (code_lines code))"
  by (auto simp: detect_smells_def Let_def comment_threshold todo_msg_def long_lines_msg_def
                 comment_msg_def print_msg_def)

text \<open>C16. After \<open>register_default_tools\<close>, the strict lookups of \<open>detect_smells\<close> and \<open>estimate_length_complexity\<close> return the two heuristic tools.\<close>

theorem default_tools_lookup:
  "get ''detect_smells'' (register_default_tools reg) = Inr Detect_smells \<and>
   get ''estimate_length_complexity'' (register_default_tools reg) = Inr Estimate_length_complexity"
  by (simp add: register_default_tools_def get_try_get try_get_register)
end
