(* ===== verification/Api.thy ===== *)
theory Api
  imports Engine Smells
begin

text \<open>
  The HTTP layer of \<open>src/main.py\<close> and the schemas of \<open>src/models.py\<close>. The module state
  (the tool registry with the default tools, the engine, the table \<open>WORKFLOW_BUILDERS\<close>)
  is the record \<open>app\<close>; each endpoint is a function from its request and the app to the
  new app and a response. \<open>HTTPException\<close> is the response \<open>Http_error code detail\<close>;
  an exception that escapes an endpoint is \<open>Server_error\<close> (FastAPI answers 500).
  The workflow builder \<open>build_code_review_workflow\<close> is not part of the sources: it is
  a field of the app, so every theorem holds for any builder.
\<close>

section \<open>Schemas (models.py)\<close>

record graph_create_request =
  create_graph_id :: string
  workflow :: string

record graph_create_response =
  created_graph_id :: string
  created_start_node :: string
  available_nodes :: "string list"

record graph_run_request =
  run_request_graph_id :: string
  initial_state :: state

record graph_run_result =
  result_run_id :: string
  result_graph_id :: string
  final_state :: state
  result_logs :: "string list"
  result_status :: string

record graph_state_response =
  state_run_id :: string
  state_graph_id :: string
  state_state :: state
  state_logs :: "string list"
  state_status :: string
  state_current_node :: "string option"

datatype api_response =
    Http_error nat string
  | Created graph_create_response
  | Run_result graph_run_result
  | State_result graph_state_response
  | Server_error exc

section \<open>Application state (main.py, lines 16--23)\<close>

type_synonym builder = "default_tool tool_registry \<Rightarrow> default_tool graph_definition"

record app =
  engine :: "default_tool workflow_engine"
  workflow_builders :: "(string, builder) pydict"
  build_code_review_workflow :: builder

definition initial_app :: "builder \<Rightarrow> app" where
  "initial_app b =
     \<lparr>engine = new_engine (register_default_tools new_tool_registry),
      workflow_builders = [(''code_review'', b)], build_code_review_workflow = b\<rparr>"

text \<open>\<open>ensure_default_graph\<close> (lines 26--30), run at startup.\<close>

definition ensure_default_graph :: "app \<Rightarrow> app" where
  "ensure_default_graph a =
     (if has_graph ''code_review'' (engine a) then a
      else a\<lparr>engine := fst (register_graph ''code_review''
                              (build_code_review_workflow a (tool_registry (engine a))) (engine a))\<rparr>)"

section \<open>Endpoints\<close>

text \<open>\<open>POST /graph/create\<close> (lines 33--45).\<close>

definition create_graph :: "graph_create_request \<Rightarrow> app \<Rightarrow> app \<times> api_response" where
  "create_graph p a =
     (case py_get (workflow_builders a) (workflow p) of
        None \<Rightarrow> (a, Http_error 400 (''Unknown workflow '' @ quoted (workflow p) @ ''.''))
      | Some builder \<Rightarrow>
          (let g = builder (tool_registry (engine a))
           in (a\<lparr>engine := fst (register_graph (create_graph_id p) g (engine a))\<rparr>,
               Created \<lparr>created_graph_id = create_graph_id p, created_start_node = start_node g,
                        available_nodes = py_keys (nodes g)\<rparr>)))"

definition run_result_of :: "graph_run \<Rightarrow> graph_run_result" where
  "run_result_of run =
     \<lparr>result_run_id = run_id run, result_graph_id = graph_id run, final_state = state run,
      result_logs = logs run, result_status = status_str (status run)\<rparr>"

text \<open>
  \<open>POST /graph/run\<close> (lines 48--60); \<open>rid\<close> is the identifier \<open>uuid4\<close> draws inside
  \<open>engine.run_graph\<close>. \<open>None\<close> when the run never ends (the request never answers).
\<close>

definition run_graph_endpoint :: "graph_run_request \<Rightarrow> string \<Rightarrow> app \<Rightarrow> (app \<times> api_response) option" where
  "run_graph_endpoint p rid a =
     (if \<not> has_graph (run_request_graph_id p) (engine a)
      then Some (a, Http_error 404 (''Graph '' @ quoted (run_request_graph_id p) @ '' is not registered.''))
      else map_option
             (\<lambda>(eng', res). (a\<lparr>engine := eng'\<rparr>,
                              case res of Inl e \<Rightarrow> Server_error e | Inr run \<Rightarrow> Run_result (run_result_of run)))
             (run_graph (run_request_graph_id p) (Some (initial_state p)) rid (engine a)))"

text \<open>\<open>GET /graph/state/{run_id}\<close> (lines 63--76); a \<open>GraphRun\<close> is always truthy.\<close>

definition get_run_state :: "string \<Rightarrow> app \<Rightarrow> api_response" where
  "get_run_state rid a =
     (case get_run rid (engine a) of
        None \<Rightarrow> Http_error 404 (''Run '' @ quoted rid @ '' not found.'')
      | Some run \<Rightarrow>
          State_result \<lparr>state_run_id = run_id run, state_graph_id = graph_id run, state_state = state run,
                        state_logs = logs run, state_status = status_str (status run),
                        state_current_node = current_node run\<rparr>)"

section \<open>The server as a state machine\<close>

text \<open>
  A request to the server. Requests are handled one after the other: every endpoint
  runs to its answer before the next request is looked at (the interleaving of
  concurrent runs inside the event loop is not modelled).
\<close>

datatype request =
    Create_graph graph_create_request
  | Run_graph graph_run_request string
  | Get_run_state string

fun serve :: "request \<Rightarrow> app \<Rightarrow> (app \<times> api_response) option" where
  "serve (Create_graph p) a = Some (create_graph p a)"
| "serve (Run_graph p rid) a = run_graph_endpoint p rid a"
| "serve (Get_run_state rid) a = Some (a, get_run_state rid a)"

text \<open>\<open>uuid4\<close> draws an identifier that is not yet a key of the run table.\<close>

fun fresh_request :: "request \<Rightarrow> app \<Rightarrow> bool" where
  "fresh_request (Run_graph p rid) a = (rid \<notin> set (py_keys (runs (engine a))))"
| "fresh_request _ a = True"

inductive app_reachable :: "builder \<Rightarrow> app \<Rightarrow> bool" for b :: builder where
  startup: "app_reachable b (ensure_default_graph (initial_app b))"
| step: "app_reachable b a \<Longrightarrow> fresh_request req a \<Longrightarrow> serve req a = Some (a', resp) \<Longrightarrow>
         app_reachable b a'"

text \<open>
  Well-formedness of the server state: the tables have distinct keys, every run record
  is stored under its own id and belongs to a registered graph, no stored run is
  \<open>pending\<close>, and the tool registry holds the default tools.
\<close>

definition app_wf :: "app \<Rightarrow> bool" where
  "app_wf a \<longleftrightarrow>
     distinct (py_keys (graphs (engine a))) \<and> distinct (py_keys (runs (engine a))) \<and>
     list_all (\<lambda>(rid, r). run_id r = rid \<and> has_graph (graph_id r) (engine a) \<and> status r \<noteq> Pending)
       (runs (engine a)) \<and>
     tool_registry (engine a) = register_default_tools new_tool_registry"

section \<open>Lemmas\<close>

lemma app_wf_initial: "app_wf (ensure_default_graph (initial_app b))"
  by (simp add: app_wf_def ensure_default_graph_def initial_app_def new_engine_def has_graph_get
                register_graph_def py_keys_def py_set_def)

lemma app_wf_engine_runs:
  assumes wf: "app_wf a" and graphs: "graphs eng' = graphs (engine a)"
    and tr: "tool_registry eng' = tool_registry (engine a)"
    and runs: "runs eng' = py_set rid r (runs (engine a))"
    and r: "run_id r = rid" "has_graph (graph_id r) (engine a)" "status r \<noteq> Pending"
  shows "app_wf (a\<lparr>engine := eng'\<rparr>)"
proof -
  have hg: "has_graph x eng' \<longleftrightarrow> has_graph x (engine a)" for x
    by (simp add: has_graph_def graphs)
  from wf have "list_all (\<lambda>(rid, r). run_id r = rid \<and> has_graph (graph_id r) eng' \<and> status r \<noteq> Pending)
                  (runs (engine a))"
    by (simp add: app_wf_def hg)
  then have "list_all (\<lambda>(rid, r). run_id r = rid \<and> has_graph (graph_id r) eng' \<and> status r \<noteq> Pending)
               (runs eng')"
    unfolding runs by (rule py_set_list_all) (simp add: r hg)
  with wf graphs tr show ?thesis by (simp add: app_wf_def runs pydict_simps)
qed

lemma create_graph_wf: "app_wf a \<Longrightarrow> app_wf (fst (create_graph p a))"
  by (auto simp: create_graph_def app_wf_def register_graph_def has_graph_register[unfolded register_graph_def, simplified]
                 pydict_simps Let_def split: option.splits elim!: list.pred_mono_strong)

lemma run_graph_endpoint_cases:
  assumes "run_graph_endpoint p rid a = Some (a', resp)"
  shows "a' = a \<or>
         (\<exists>r. a' = a\<lparr>engine := (engine a)\<lparr>runs := py_set rid r (runs (engine a))\<rparr>\<rparr> \<and>
              run_id r = rid \<and> graph_id r = run_request_graph_id p \<and>
              has_graph (run_request_graph_id p) (engine a) \<and> status r \<noteq> Pending)"
proof (cases "has_graph (run_request_graph_id p) (engine a)")
  case True
  with assms obtain eng' res where
    rg: "run_graph (run_request_graph_id p) (Some (initial_state p)) rid (engine a) = Some (eng', res)"
    and a': "a' = a\<lparr>engine := eng'\<rparr>"
    by (auto simp: run_graph_endpoint_def)
  from run_graph_runs [OF rg] a' show ?thesis by auto
next
  case False
  with assms show ?thesis by (simp add: run_graph_endpoint_def)
qed

lemma run_graph_endpoint_wf:
  assumes "app_wf a" "run_graph_endpoint p rid a = Some (a', resp)"
  shows "app_wf a'"
  using run_graph_endpoint_cases [OF assms(2)]
proof
  assume "a' = a"
  with assms(1) show ?thesis by simp
next
  assume "\<exists>r. a' = a\<lparr>engine := (engine a)\<lparr>runs := py_set rid r (runs (engine a))\<rparr>\<rparr> \<and>
              run_id r = rid \<and> graph_id r = run_request_graph_id p \<and>
              has_graph (run_request_graph_id p) (engine a) \<and> status r \<noteq> Pending"
  then obtain r where "a' = a\<lparr>engine := (engine a)\<lparr>runs := py_set rid r (runs (engine a))\<rparr>\<rparr>"
    "run_id r = rid" "has_graph (graph_id r) (engine a)" "status r \<noteq> Pending"
    by auto
  with assms(1) show ?thesis by (simp add: app_wf_engine_runs)
qed

lemma serve_wf:
  assumes "app_wf a" "serve req a = Some (a', resp)"
  shows "app_wf a'"
proof (cases req)
  case (Create_graph p)
  with assms(2) have "a' = fst (create_graph p a)" by simp
  with assms(1) show ?thesis by (simp add: create_graph_wf)
qed (use assms in \<open>auto intro: run_graph_endpoint_wf\<close>)

text \<open>C17. Every server state reachable from startup through any sequence of requests is well formed: graph and run tables have unique keys, each run record is stored under its own run id and belongs to a registered graph, no stored run is pending, and the tool registry holds the two default tools.\<close>

theorem app_reachable_wf: "app_reachable b a \<Longrightarrow> app_wf a"
  by (induction rule: app_reachable.induct) (auto intro: app_wf_initial serve_wf)

text \<open>C18. A stored run record is never changed by a later request when run ids are fresh (as uuid4 makes them): in particular a completed or failed run stays completed or failed.\<close>

theorem stored_runs_unchanged:
  assumes "get_run rid (engine a) = Some r" "fresh_request req a" "serve req a = Some (a', resp)"
  shows "get_run rid (engine a') = Some r"
proof (cases req)
  case (Create_graph p)
  with assms show ?thesis
    by (auto simp: create_graph_def get_run_def register_graph_def Let_def split: option.splits)
next
  case (Run_graph p rid')
  from assms(1) have "py_contains (runs (engine a)) rid"
    by (simp add: get_run_def py_contains_get)
  then have "rid \<in> set (py_keys (runs (engine a)))" by (simp add: py_contains_def)
  with assms(2) Run_graph have ne: "rid \<noteq> rid'" by auto
  from assms(3) Run_graph have "run_graph_endpoint p rid' a = Some (a', resp)" by simp
  from run_graph_endpoint_cases [OF this] assms(1) ne show ?thesis
    by (auto simp: get_run_def pydict_simps)
next
  case (Get_run_state x)
  with assms show ?thesis by simp
qed

text \<open>C19. POST /graph/run for an unregistered graph answers 404 with the detail Graph '...' is not registered. and creates no run record.\<close>

theorem run_endpoint_unregistered:
  "\<not> has_graph (run_request_graph_id p) (engine a) \<Longrightarrow>
   run_graph_endpoint p rid a =
     Some (a, Http_error 404 (''Graph '' @ quoted (run_request_graph_id p) @ '' is not registered.''))"
  by (simp add: run_graph_endpoint_def)

text \<open>When a node raises an Exception during POST /graph/run, the request fails with that exception, and GET /graph/state for the run id then shows status failed with the failure described by the last log line.\<close>

theorem run_endpoint_failure_visible:
  assumes "run_graph_endpoint p rid a = Some (a', Server_error e)" "is_exception e"
  shows "\<exists>sr. get_run_state rid a' = State_result sr \<and> state_status sr = ''failed'' \<and>
              last (state_logs sr) = failed_msg e"
proof -
  from assms(1) have reg: "has_graph (run_request_graph_id p) (engine a)"
    by (auto simp: run_graph_endpoint_def split: if_splits)
  with assms(1) obtain eng' res' where
    rg0: "run_graph (run_request_graph_id p) (Some (initial_state p)) rid (engine a) = Some (eng', res')"
    and a': "a' = a\<lparr>engine := eng'\<rparr>"
    and cs: "(case res' of Inl e \<Rightarrow> Server_error e | Inr run \<Rightarrow> Run_result (run_result_of run)) = Server_error e"
    by (auto simp: run_graph_endpoint_def)
  from cs have "res' = Inl e" by (cases res') auto
  with rg0 have rg: "run_graph (run_request_graph_id p) (Some (initial_state p)) rid (engine a) = Some (eng', Inl e)"
    by simp
  from rg reg obtain g run' ex where
    "eng' = engine a\<lparr>runs := py_set rid (fst (finish_run run' ex)) (runs (engine a))\<rparr>"
    "Inl e = snd (finish_run run' ex)"
    by (rule run_graph_SomeE)
  with a' assms(2) show ?thesis
    by (cases ex) (auto simp: get_run_state_def get_run_def pydict_simps append_log_def Let_def
                         split: if_splits)
qed

text \<open>C21. After a successful POST /graph/run, GET /graph/state for the returned run id shows exactly the returned final state, logs and status, status completed and no current node.\<close>

theorem run_endpoint_state_agrees:
  assumes "run_graph_endpoint p rid a = Some (a', Run_result res)"
  shows "get_run_state rid a' =
           State_result \<lparr>state_run_id = result_run_id res, state_graph_id = result_graph_id res,
                         state_state = final_state res, state_logs = result_logs res,
                         state_status = result_status res, state_current_node = None\<rparr> \<and>
         result_status res = ''completed'' \<and> result_run_id res = rid"
proof -
  from assms have reg: "has_graph (run_request_graph_id p) (engine a)"
    by (auto simp: run_graph_endpoint_def split: if_splits)
  with assms obtain eng' res' where
    rg0: "run_graph (run_request_graph_id p) (Some (initial_state p)) rid (engine a) = Some (eng', res')"
    and a': "a' = a\<lparr>engine := eng'\<rparr>"
    and cs: "(case res' of Inl e \<Rightarrow> Server_error e | Inr run \<Rightarrow> Run_result (run_result_of run)) = Run_result res"
    by (auto simp: run_graph_endpoint_def)
  from cs obtain r where "res' = Inr r" and res: "res = run_result_of r" by (cases res') auto
  with rg0 have rg: "run_graph (run_request_graph_id p) (Some (initial_state p)) rid (engine a) = Some (eng', Inr r)"
    by simp
  from rg reg obtain g run' ex where
    ex: "run_exec g (tool_registry (engine a)) (new_run rid (run_request_graph_id p) (Some (initial_state p)))
           (Some (start_node g)) (run', ex)"
    and eng': "eng' = engine a\<lparr>runs := py_set rid (fst (finish_run run' ex)) (runs (engine a))\<rparr>"
    and r: "Inr r = snd (finish_run run' ex)"
    by (rule run_graph_SomeE)
  from run_exec_frame [OF ex] have "run_id run' = rid" by simp
  with a' eng' r res show ?thesis
    by (cases ex) (auto simp: get_run_state_def get_run_def run_result_of_def pydict_simps
                              append_log_def Let_def split: if_splits)
qed

text \<open>C22. POST /graph/create with a workflow name that has no builder answers 400 with the detail Unknown workflow '...'. and changes nothing.\<close>

theorem create_graph_unknown:
  "py_get (workflow_builders a) (workflow p) = None \<Longrightarrow>
   create_graph p a = (a, Http_error 400 (''Unknown workflow '' @ quoted (workflow p) @ ''.''))"
  by (simp add: create_graph_def)

text \<open>C23. POST /graph/create with a known workflow registers the graph its builder makes under the requested id and answers with that graph's start node and its node names in insertion order.\<close>

theorem create_graph_registers:
  assumes "py_get (workflow_builders a) (workflow p) = Some bld"
  shows "create_graph p a =
           (a\<lparr>engine := fst (register_graph (create_graph_id p) (bld (tool_registry (engine a))) (engine a))\<rparr>,
            Created \<lparr>created_graph_id = create_graph_id p,
                     created_start_node = start_node (bld (tool_registry (engine a))),
                     available_nodes = py_keys (nodes (bld (tool_registry (engine a))))\<rparr>) \<and>
         py_get (graphs (engine (fst (create_graph p a)))) (create_graph_id p) =
           Some (bld (tool_registry (engine a)))"
  using assms by (simp add: create_graph_def register_graph_def pydict_simps Let_def)

text \<open>C24. The startup hook never overwrites a registered code_review graph: when one is registered (whatever graph it is), the hook changes nothing; otherwise it registers the graph the builder makes from the tool registry. Either way code_review is registered afterwards.\<close>

theorem ensure_default_graph_guard:
  "(has_graph ''code_review'' (engine a) \<longrightarrow> ensure_default_graph a = a) \<and>
   (\<not> has_graph ''code_review'' (engine a) \<longrightarrow>
      py_get (graphs (engine (ensure_default_graph a))) ''code_review'' =
        Some (build_code_review_workflow a (tool_registry (engine a)))) \<and>
   has_graph ''code_review'' (engine (ensure_default_graph a))"
  by (simp add: ensure_default_graph_def register_graph_def has_graph_get pydict_simps)

end
