(* ===== verification/Concurrency.thy ===== *)
theory Concurrency
  imports Engine
begin

text \<open>
  Several runs in flight at once (specification, section 5). \<open>run_graph\<close> is a
  coroutine: it suspends at \<open>await handler(...)\<close>, and the event loop may then resume
  another run. Everything between two suspensions of one run (one iteration of its loop)
  is synchronous. The state is the engine and, for each suspended call, its frame: the
  graph it captured at the start (\<open>graph = self.graphs[graph_id]\<close>) and its loop
  variable \<open>current\<close>. An event is the start of a call (the code up to the loop), one
  iteration of a suspended call (which ends the call when the loop is left), or a graph
  registration; any sequence of events is an interleaving the event loop may produce.
\<close>

section \<open>State and events\<close>

record 'f conc_state =
  conc_engine :: "'f workflow_engine"
  in_flight :: "(string, 'f graph_definition \<times> string option) pydict"

datatype 'f event =
    Start string string "state option"
  | Resume string
  | Register string "'f graph_definition"

text \<open>
  \<open>Start rid gid init\<close> runs \<open>run_graph\<close> up to its loop: it raises before doing anything
  when \<open>gid\<close> is not registered, and otherwise stores the fresh record and the frame.
  \<open>Resume rid\<close> runs one iteration of the suspended call \<open>rid\<close>; when the loop is left,
  the epilogue finishes the record and the frame disappears. An event for a call that is
  not suspended does nothing.
\<close>

fun conc_step :: "'f event \<Rightarrow> 'f conc_state \<Rightarrow> 'f conc_state" where
  "conc_step (Register gid g) s = s\<lparr>conc_engine := fst (register_graph gid g (conc_engine s))\<rparr>"
| "conc_step (Start rid gid init) s =
     (case py_get (graphs (conc_engine s)) gid of
        None \<Rightarrow> s
      | Some g \<Rightarrow>
          s\<lparr>conc_engine := (conc_engine s)\<lparr>runs := py_set rid (new_run rid gid init) (runs (conc_engine s))\<rparr>,
            in_flight := py_set rid (g, Some (start_node g)) (in_flight s)\<rparr>)"
| "conc_step (Resume rid) s =
     (case (py_get (in_flight s) rid, py_get (runs (conc_engine s)) rid) of
        (Some (g, cur), Some run) \<Rightarrow>
          (case loop_step g (tool_registry (conc_engine s)) run cur of
             Inl fin \<Rightarrow>
               s\<lparr>conc_engine := (conc_engine s)\<lparr>runs := py_set rid (fst (finish_run (fst fin) (snd fin)))
                                                         (runs (conc_engine s))\<rparr>,
                 in_flight := py_del rid (in_flight s)\<rparr>
           | Inr nxt \<Rightarrow>
               s\<lparr>conc_engine := (conc_engine s)\<lparr>runs := py_set rid (fst nxt) (runs (conc_engine s))\<rparr>,
                 in_flight := py_set rid (g, snd nxt) (in_flight s)\<rparr>)
      | _ \<Rightarrow> s)"

definition conc_run :: "'f event list \<Rightarrow> 'f conc_state \<Rightarrow> 'f conc_state" where
  "conc_run es s = fold conc_step es s"

text \<open>The events that concern run \<open>rid\<close>: its own, and every registration (a start reads the
  graph table).\<close>

fun concerns :: "string \<Rightarrow> 'f event \<Rightarrow> bool" where
  "concerns rid (Start r _ _) = (r = rid)"
| "concerns rid (Resume r) = (r = rid)"
| "concerns rid (Register _ _) = True"

text \<open>What an observer of run \<open>rid\<close> sees: its record (\<open>get_run\<close>) and whether it is suspended.\<close>

definition view :: "string \<Rightarrow> 'f conc_state \<Rightarrow> graph_run option \<times> ('f graph_definition \<times> string option) option" where
  "view rid s = (get_run rid (conc_engine s), py_get (in_flight s) rid)"

text \<open>Two states agree for \<open>rid\<close> when they have the same graphs, tools and view of \<open>rid\<close>.\<close>

definition agree :: "string \<Rightarrow> 'f conc_state \<Rightarrow> 'f conc_state \<Rightarrow> bool" where
  "agree rid s1 s2 \<longleftrightarrow>
     graphs (conc_engine s1) = graphs (conc_engine s2) \<and>
     tool_registry (conc_engine s1) = tool_registry (conc_engine s2) \<and> view rid s1 = view rid s2"

text \<open>What \<open>get_run(rid)\<close> shows of a call in flight: a record stored under its id with
  status \<open>running\<close>. The invariant: every suspended call shows as running.\<close>

definition shows_running :: "string \<Rightarrow> 'f workflow_engine \<Rightarrow> bool" where
  "shows_running rid eng \<longleftrightarrow>
     (case get_run rid eng of Some r \<Rightarrow> status r = Running \<and> run_id r = rid | None \<Rightarrow> False)"

definition in_flight_running :: "'f conc_state \<Rightarrow> bool" where
  "in_flight_running s \<longleftrightarrow> list_all (\<lambda>rid. shows_running rid (conc_engine s)) (py_keys (in_flight s))"

section \<open>Lemmas\<close>

text \<open>An iteration keeps the record's identity and status, whether the loop goes on or ends.\<close>

lemma loop_step_frame:
  "loop_step g tr run cur = Inl (run', ex) \<or> loop_step g tr run cur = Inr (run', cur') \<Longrightarrow>
   run_id run' = run_id run \<and> graph_id run' = graph_id run \<and> status run' = status run"
  by (auto simp: loop_step_def Let_def append_log_def logger_logs log_message_def
           split: if_splits option.splits sum.splits)

lemma conc_step_registry: "tool_registry (conc_engine (conc_step e s)) = tool_registry (conc_engine s)"
  by (cases e) (auto simp: register_graph_def split: option.splits prod.splits sum.splits)

lemma conc_step_other:
  "\<not> concerns rid e \<Longrightarrow>
   view rid (conc_step e s) = view rid s \<and> graphs (conc_engine (conc_step e s)) = graphs (conc_engine s)"
  by (cases e) (auto simp: view_def get_run_def pydict_simps split: option.splits prod.splits sum.splits)

lemma conc_step_agree:
  assumes "agree rid s1 s2" "concerns rid e"
  shows "agree rid (conc_step e s1) (conc_step e s2)"
proof (cases e)
  case (Start r gid init)
  with assms show ?thesis
    by (auto simp: agree_def view_def get_run_def pydict_simps split: option.splits)
next
  case (Resume r)
  with assms(2) have r: "r = rid" by simp
  from assms(1) have eq: "py_get (in_flight s1) rid = py_get (in_flight s2) rid"
    "py_get (runs (conc_engine s1)) rid = py_get (runs (conc_engine s2)) rid"
    "tool_registry (conc_engine s1) = tool_registry (conc_engine s2)"
    "graphs (conc_engine s1) = graphs (conc_engine s2)"
    by (auto simp: agree_def view_def get_run_def)
  show ?thesis
    using eq unfolding Resume r
    by (auto simp: agree_def view_def get_run_def pydict_simps split: option.splits prod.splits sum.splits)
next
  case (Register gid g)
  with assms show ?thesis
    by (auto simp: agree_def view_def get_run_def register_graph_def)
qed

lemma conc_run_agree:
  "agree rid s1 s2 \<Longrightarrow> agree rid (conc_run es s1) (conc_run (filter (concerns rid) es) s2)"
proof (induction es arbitrary: s1 s2)
  case Nil
  then show ?case by (simp add: conc_run_def)
next
  case (Cons e es)
  show ?case
  proof (cases "concerns rid e")
    case True
    from Cons.prems True have "agree rid (conc_step e s1) (conc_step e s2)" by (rule conc_step_agree)
    with Cons.IH True show ?thesis by (simp add: conc_run_def)
  next
    case False
    from Cons.prems conc_step_other [OF False, of s1] conc_step_registry [of e s1]
    have "agree rid (conc_step e s1) s2" by (simp add: agree_def)
    with Cons.IH False show ?thesis by (simp add: conc_run_def)
  qed
qed

text \<open>Interleaving does not change any run: for every sequence of events the event loop may produce, what an observer sees of run rid (its record and whether it is still suspended) is what the events concerning rid alone (its start, its iterations, and the graph registrations) produce.\<close>

theorem conc_run_projection:
  "view rid (conc_run es s) = view rid (conc_run (filter (concerns rid) es) s)"
  using conc_run_agree [of rid s s es] by (simp add: agree_def)

lemma conc_run_Cons: "conc_run (e # es) s = conc_run es (conc_step e s)"
  by (simp add: conc_run_def)

text \<open>The iteration that leaves the loop runs the epilogue and drops the frame.\<close>

lemma resume_finish:
  assumes "py_get (in_flight s) rid = Some (g, cur)" "get_run rid (conc_engine s) = Some run"
    "tool_registry (conc_engine s) = tr" "loop_step g tr run cur = Inl fin"
  shows "\<exists>n. view rid (conc_run (replicate n (Resume rid)) s) = (Some (fst (finish_run (fst fin) (snd fin))), None)"
proof
  show "view rid (conc_run (replicate 1 (Resume rid)) s) = (Some (fst (finish_run (fst fin) (snd fin))), None)"
    using assms by (simp add: conc_run_def view_def get_run_def pydict_simps split: prod.split)
qed

lemma resume_run_exec:
  assumes "run_exec g tr run cur fin"
  shows "py_get (in_flight s) rid = Some (g, cur) \<Longrightarrow> get_run rid (conc_engine s) = Some run \<Longrightarrow>
         tool_registry (conc_engine s) = tr \<Longrightarrow>
         \<exists>n. view rid (conc_run (replicate n (Resume rid)) s) =
               (Some (fst (finish_run (fst fin) (snd fin))), None)"
  using assms
proof (induction arbitrary: s rule: run_exec.induct)
  case (continue c h run r fin)
  let ?run' = "log_message (visit_run run c (h (state run) tr)) (message r)"
  let ?s' = "conc_step (Resume rid) s"
  from continue.hyps(1-3) have step: "loop_step g tr run (Some c) = Inr (?run', next_node r)"
    by (simp add: loop_step_node)
  with continue.prems have "py_get (in_flight ?s') rid = Some (g, next_node r)"
    "get_run rid (conc_engine ?s') = Some ?run'" "tool_registry (conc_engine ?s') = tr"
    by (simp_all add: get_run_def pydict_simps)
  from continue.IH [OF this] obtain n where
    "view rid (conc_run (replicate n (Resume rid)) ?s') = (Some (fst (finish_run (fst fin) (snd fin))), None)"
    by blast
  then have "view rid (conc_run (replicate (Suc n) (Resume rid)) s) =
               (Some (fst (finish_run (fst fin) (snd fin))), None)"
    by (simp add: conc_run_Cons)
  then show ?case by blast
qed (rule resume_finish, assumption+, simp add: loop_step_stop loop_step_missing loop_step_node)+

text \<open>A run started and resumed one iteration at a time reaches, after enough iterations, exactly the record that the sequential run_graph stores, and is then no longer suspended.\<close>

theorem conc_refines_run_graph:
  assumes "run_graph gid init rid (conc_engine s) = Some (eng', res)" "has_graph gid (conc_engine s)"
  shows "\<exists>n. view rid (conc_run (Start rid gid init # replicate n (Resume rid)) s) = (get_run rid eng', None)"
proof -
  from assms obtain g run' ex where g: "py_get (graphs (conc_engine s)) gid = Some g"
    and ex: "run_exec g (tool_registry (conc_engine s)) (new_run rid gid init) (Some (start_node g)) (run', ex)"
    and eng': "eng' = conc_engine s\<lparr>runs := py_set rid (fst (finish_run run' ex)) (runs (conc_engine s))\<rparr>"
    by (rule run_graph_SomeE)
  let ?s1 = "conc_step (Start rid gid init) s"
  from g have "py_get (in_flight ?s1) rid = Some (g, Some (start_node g))"
    "get_run rid (conc_engine ?s1) = Some (new_run rid gid init)"
    "tool_registry (conc_engine ?s1) = tool_registry (conc_engine s)"
    by (simp_all add: get_run_def pydict_simps)
  from resume_run_exec [OF ex this] obtain n where
    "view rid (conc_run (replicate n (Resume rid)) ?s1) = (Some (fst (finish_run run' ex)), None)"
    by auto
  with eng' show ?thesis by (auto simp: conc_run_Cons get_run_def pydict_simps)
qed

lemma conc_run_invariant:
  assumes "\<And>e s. P s \<Longrightarrow> P (conc_step e s)" "P s"
  shows "P (conc_run es s)"
  using assms(2) unfolding conc_run_def
  by (induction es arbitrary: s) (simp_all add: assms(1))

lemma in_flight_runningD:
  "in_flight_running s \<Longrightarrow> py_get (in_flight s) rid \<noteq> None \<Longrightarrow> shows_running rid (conc_engine s)"
  by (simp add: in_flight_running_def list_all_iff in_py_keys_get)

text \<open>A step that adds at most the frame of \<open>r\<close> and changes at most the record of \<open>r\<close>
  keeps the invariant when \<open>r\<close>, if still in flight, shows as running.\<close>

lemma in_flight_running_update:
  assumes inv: "in_flight_running s"
    and keys: "set (py_keys (in_flight s')) \<subseteq> insert r (set (py_keys (in_flight s)))"
    and other: "\<And>x. x \<noteq> r \<Longrightarrow> get_run x (conc_engine s') = get_run x (conc_engine s)"
    and self: "r \<in> set (py_keys (in_flight s')) \<Longrightarrow> shows_running r (conc_engine s')"
  shows "in_flight_running s'"
  unfolding in_flight_running_def list_all_iff
proof
  fix x assume x: "x \<in> set (py_keys (in_flight s'))"
  show "shows_running x (conc_engine s')"
  proof (cases "x = r")
    case False
    with x keys inv have "shows_running x (conc_engine s)"
      by (auto simp: in_flight_running_def list_all_iff)
    with False show ?thesis by (simp add: shows_running_def other)
  qed (use x self in simp)
qed

lemma shows_running_set:
  "status run = Running \<Longrightarrow> run_id run = r \<Longrightarrow>
   shows_running r (eng\<lparr>runs := py_set r run (runs eng)\<rparr>)"
  by (simp add: shows_running_def get_run_def pydict_simps)

lemma resume_in_flight_running:
  assumes inv: "in_flight_running s"
  shows "in_flight_running (conc_step (Resume r) s)"
proof (cases "\<exists>g cur run. py_get (in_flight s) r = Some (g, cur) \<and> py_get (runs (conc_engine s)) r = Some run")
  case False
  then have "conc_step (Resume r) s = s" by (auto split: option.splits prod.splits)
  with inv show ?thesis by simp
next
  case True
  then obtain g cur run where fr: "py_get (in_flight s) r = Some (g, cur)"
    and rn: "py_get (runs (conc_engine s)) r = Some run" by blast
  from in_flight_runningD [OF inv, of r] fr rn have run: "status run = Running" "run_id run = r"
    by (simp_all add: shows_running_def get_run_def)
  show ?thesis
  proof (cases "loop_step g (tool_registry (conc_engine s)) run cur")
    case (Inl fin)
    show ?thesis
    proof (rule in_flight_running_update [OF inv, where r = r])
      show "set (py_keys (in_flight (conc_step (Resume r) s))) \<subseteq> insert r (set (py_keys (in_flight s)))"
        using fr rn Inl by (auto simp: py_keys_del)
    qed (use fr rn Inl in \<open>auto simp: get_run_def pydict_simps\<close>)
  next
    case (Inr nxt)
    with run have run': "status (fst nxt) = Running" "run_id (fst nxt) = r"
      using loop_step_frame [of g _ run cur "fst nxt" _ "snd nxt"] by auto
    show ?thesis
    proof (rule in_flight_running_update [OF inv, where r = r])
      show "shows_running r (conc_engine (conc_step (Resume r) s))"
        using fr rn Inr run' by (simp add: shows_running_set)
    qed (use fr rn Inr in \<open>auto simp: get_run_def pydict_simps\<close>)
  qed
qed

lemma conc_step_in_flight_running:
  assumes inv: "in_flight_running s"
  shows "in_flight_running (conc_step e s)"
proof (cases e)
  case (Register gid g)
  with inv show ?thesis
    by (simp add: in_flight_running_def shows_running_def get_run_def register_graph_def)
next
  case (Start r gid init)
  show ?thesis
  proof (cases "py_get (graphs (conc_engine s)) gid")
    case None
    with Start inv show ?thesis by simp
  next
    case (Some g)
    show ?thesis
    proof (rule in_flight_running_update [OF inv, where r = r])
      show "shows_running r (conc_engine (conc_step e s))"
        using Start Some by (simp add: shows_running_set new_run_def)
    qed (use Start Some in \<open>auto simp: get_run_def pydict_simps\<close>)
  qed
qed (use resume_in_flight_running [OF inv] in \<open>simp del: conc_step.simps\<close>)

text \<open>C25. While a run is suspended inside run_graph, a concurrent reader that looks it up by id sees a record stored under that id with status running: a partially completed run is visible as running, never as completed or failed.\<close>

theorem conc_run_in_flight_running:
  "in_flight_running s \<Longrightarrow> in_flight_running (conc_run es s)"
  by (rule conc_run_invariant [where P = in_flight_running, OF conc_step_in_flight_running])

end
