(* ===== verification/Server.thy ===== *)
theory Server
  imports Api Concurrency
begin

text \<open>
  The server of \<open>src/main.py\<close> with its requests interleaved with the runs they start.
  FastAPI serves each request in a coroutine of its own; the endpoint \<open>run_graph\<close>
  awaits \<open>engine.run_graph\<close>, which suspends at every node, and meanwhile the event loop
  serves other requests and resumes other runs. The state is the module state \<open>app\<close> and
  the frames of the suspended \<open>engine.run_graph\<close> calls (as in \<open>Concurrency\<close>); an event
  is the arrival of a request or one iteration of a suspended run. The engine part of
  every event is the step \<open>conc_step\<close> of \<open>Concurrency\<close>.

  A reply is addressed to the connection it answers: \<open>To_request req\<close> for a request
  answered at once, \<open>To_run rid\<close> for the \<open>POST /graph/run\<close> request whose call of
  \<open>engine.run_graph\<close> drew the run id \<open>rid\<close> (its 404 answer included).
\<close>

section \<open>State, events and replies\<close>

record server =
  srv_app :: app
  srv_flight :: "(string, default_tool graph_definition \<times> string option) pydict"

datatype server_event = Arrive request | Resume_run string

datatype reply_to = To_request request | To_run string

type_synonym reply = "reply_to \<times> api_response"

definition srv_conc :: "server \<Rightarrow> default_tool conc_state" where
  "srv_conc s = \<lparr>conc_engine = engine (srv_app s), in_flight = srv_flight s\<rparr>"

definition with_conc :: "default_tool conc_state \<Rightarrow> server \<Rightarrow> server" where
  "with_conc c s = s\<lparr>srv_app := (srv_app s)\<lparr>engine := conc_engine c\<rparr>, srv_flight := in_flight c\<rparr>"

text \<open>The response of the endpoint once \<open>engine.run_graph\<close> has returned or raised
  (main.py, lines 53--60): the run as a \<open>GraphRunResult\<close>, or the escaping exception.\<close>

definition run_response :: "exc + graph_run \<Rightarrow> api_response" where
  "run_response res = (case res of Inl e \<Rightarrow> Server_error e | Inr run \<Rightarrow> Run_result (run_result_of run))"

text \<open>What the iteration of run \<open>rid\<close> answers: nothing while the loop goes on, and the
  endpoint's response when the loop is left and \<open>engine.run_graph\<close> ends.\<close>

definition resume_response :: "string \<Rightarrow> default_tool conc_state \<Rightarrow> api_response option" where
  "resume_response rid c =
     (case (py_get (in_flight c) rid, get_run rid (conc_engine c)) of
        (Some (g, cur), Some run) \<Rightarrow>
          (case loop_step g (tool_registry (conc_engine c)) run cur of
             Inl fin \<Rightarrow> Some (run_response (snd (finish_run (fst fin) (snd fin))))
           | Inr _ \<Rightarrow> None)
      | _ \<Rightarrow> None)"

fun server_step :: "server_event \<Rightarrow> server \<Rightarrow> server \<times> reply option" where
  "server_step (Arrive (Create_graph p)) s =
     (let (a', resp) = create_graph p (srv_app s) in (s\<lparr>srv_app := a'\<rparr>, Some (To_request (Create_graph p), resp)))"
| "server_step (Arrive (Get_run_state rid)) s =
     (s, Some (To_request (Get_run_state rid), get_run_state rid (srv_app s)))"
| "server_step (Arrive (Run_graph p rid)) s =
     (if \<not> has_graph (run_request_graph_id p) (engine (srv_app s))
      then (s, Some (To_run rid, Http_error 404 (''Graph '' @ quoted (run_request_graph_id p) @ '' is not registered.'')))
      else (with_conc (conc_step (Start rid (run_request_graph_id p) (Some (initial_state p))) (srv_conc s)) s, None))"
| "server_step (Resume_run rid) s =
     (with_conc (conc_step (Resume rid) (srv_conc s)) s,
      map_option (\<lambda>resp. (To_run rid, resp)) (resume_response rid (srv_conc s)))"

text \<open>A sequence of events, with the replies in the order they are sent.\<close>

fun server_run :: "server_event list \<Rightarrow> server \<Rightarrow> server \<times> reply list" where
  "server_run [] s = (s, [])"
| "server_run (e # es) s =
     (let (s1, out) = server_step e s; (s2, outs) = server_run es s1
      in (s2, (case out of None \<Rightarrow> [] | Some r \<Rightarrow> [r]) @ outs))"

text \<open>What run \<open>rid\<close> depends on: its frame, its record and the tool registry.\<close>

definition srv_view :: "string \<Rightarrow> server \<Rightarrow> _" where
  "srv_view rid s = (py_get (srv_flight s) rid, get_run rid (engine (srv_app s)), tool_registry (engine (srv_app s)))"

text \<open>The events that concern run \<open>rid\<close>: its iterations and a request that draws its id.\<close>

fun srv_concerns :: "string \<Rightarrow> server_event \<Rightarrow> bool" where
  "srv_concerns rid (Resume_run r) = (r = rid)"
| "srv_concerns rid (Arrive (Run_graph p r)) = (r = rid)"
| "srv_concerns rid (Arrive _) = False"

text \<open>\<open>uuid4\<close> draws a run id that is not yet in the run table (\<open>fresh_request\<close> of \<open>Api\<close>).\<close>

fun srv_fresh :: "server_event \<Rightarrow> server \<Rightarrow> bool" where
  "srv_fresh (Arrive req) s = fresh_request req (srv_app s)"
| "srv_fresh (Resume_run rid) s = True"

inductive server_reachable :: "builder \<Rightarrow> server \<Rightarrow> bool" for b :: builder where
  startup: "server_reachable b \<lparr>srv_app = ensure_default_graph (initial_app b), srv_flight = []\<rparr>"
| step: "server_reachable b s \<Longrightarrow> srv_fresh e s \<Longrightarrow> server_step e s = (s', out) \<Longrightarrow> server_reachable b s'"

text \<open>The server invariant: the module state is well formed (\<open>app_wf\<close>) and every
  suspended run shows as running.\<close>

definition server_wf :: "server \<Rightarrow> bool" where
  "server_wf s \<longleftrightarrow> app_wf (srv_app s) \<and> in_flight_running (srv_conc s)"

section \<open>Lemmas\<close>

lemma with_conc_fields [simp]:
  "srv_flight (with_conc c s) = in_flight c" "engine (srv_app (with_conc c s)) = conc_engine c"
  "workflow_builders (srv_app (with_conc c s)) = workflow_builders (srv_app s)"
  by (simp_all add: with_conc_def)

lemma srv_conc_fields [simp]:
  "in_flight (srv_conc s) = srv_flight s" "conc_engine (srv_conc s) = engine (srv_app s)"
  by (simp_all add: srv_conc_def)

lemma server_run_Cons:
  "fst (server_run (e # es) s) = fst (server_run es (fst (server_step e s)))"
  "snd (server_run (e # es) s) =
     (case snd (server_step e s) of None \<Rightarrow> [] | Some r \<Rightarrow> [r]) @ snd (server_run es (fst (server_step e s)))"
  by (simp_all split: prod.split)

declare server_run.simps(2) [simp del]

lemma server_step_other:
  "\<not> srv_concerns rid e \<Longrightarrow> srv_view rid (fst (server_step e s)) = srv_view rid s"
proof (cases e)
  case (Arrive req)
  assume nc: "\<not> srv_concerns rid e"
  show ?thesis
  proof (cases req)
    case (Create_graph p)
    with Arrive show ?thesis
      by (auto simp: srv_view_def create_graph_def get_run_def register_graph_def Let_def split: option.splits)
  next
    case (Run_graph p r)
    with Arrive nc have "\<not> concerns rid (Start r (run_request_graph_id p) (Some (initial_state p)))" by simp
    from conc_step_other [OF this, of "srv_conc s"] conc_step_registry [of _ "srv_conc s"] Arrive Run_graph
    show ?thesis by (simp add: srv_view_def view_def del: conc_step.simps)
  qed (use Arrive in \<open>simp add: srv_view_def\<close>)
next
  case (Resume_run r)
  assume "\<not> srv_concerns rid e"
  with Resume_run have "\<not> concerns rid (Resume r)" by simp
  from conc_step_other [OF this, of "srv_conc s"] conc_step_registry [of _ "srv_conc s"] Resume_run
  show ?thesis by (simp add: srv_view_def view_def del: conc_step.simps)
qed

lemma server_run_other:
  "\<forall>e\<in>set es. \<not> srv_concerns rid e \<Longrightarrow> srv_view rid (fst (server_run es s)) = srv_view rid s"
  by (induction es arbitrary: s) (simp_all add: server_run_Cons server_step_other)

lemma server_run_append:
  "fst (server_run (xs @ ys) s) = fst (server_run ys (fst (server_run xs s)))"
  "snd (server_run (xs @ ys) s) = snd (server_run xs s) @ snd (server_run ys (fst (server_run xs s)))"
  by (induction xs arbitrary: s) (simp_all add: server_run_Cons)

lemma srv_concerns_iff:
  "srv_concerns rid e \<longleftrightarrow> e = Resume_run rid \<or> (\<exists>q. e = Arrive (Run_graph q rid))"
  by (cases "(rid, e)" rule: srv_concerns.cases) auto

lemma server_resume_Inl:
  assumes "srv_view rid s = (Some (g, cur), Some run, tr)" "loop_step g tr run cur = Inl fin"
  shows "snd (server_step (Resume_run rid) s) = Some (To_run rid, run_response (snd (finish_run (fst fin) (snd fin))))"
    "srv_view rid (fst (server_step (Resume_run rid) s)) = (None, Some (fst (finish_run (fst fin) (snd fin))), tr)"
  using assms by (simp_all add: srv_view_def resume_response_def get_run_def pydict_simps split: prod.split)

lemma server_resume_Inr:
  assumes "srv_view rid s = (Some (g, cur), Some run, tr)" "loop_step g tr run cur = Inr (run', cur')"
  shows "snd (server_step (Resume_run rid) s) = None"
    "srv_view rid (fst (server_step (Resume_run rid) s)) = (Some (g, cur'), Some run', tr)"
  using assms by (simp_all add: srv_view_def resume_response_def get_run_def pydict_simps)

text \<open>A run whose call has ended is never touched again while its id is not drawn again.\<close>

lemma server_run_idle:
  "py_get (srv_flight s) rid = None \<Longrightarrow> \<forall>q. Arrive (Run_graph q rid) \<notin> set es \<Longrightarrow>
   srv_view rid (fst (server_run es s)) = srv_view rid s"
proof (induction es arbitrary: s)
  case (Cons e es)
  have "srv_view rid (fst (server_step e s)) = srv_view rid s"
  proof (cases "e = Resume_run rid")
    case True
    with Cons.prems(1) show ?thesis by (simp add: srv_view_def)
  next
    case False
    with Cons.prems(2) have "\<not> srv_concerns rid e" by (auto simp: srv_concerns_iff)
    then show ?thesis by (rule server_step_other)
  qed
  with Cons show ?case by (simp add: server_run_Cons srv_view_def)
qed simp

lemma first_resume:
  assumes "n < count_list es (Resume_run rid)"
  obtains xs ys where "es = xs @ Resume_run rid # ys" "Resume_run rid \<notin> set xs"
    "n \<le> count_list ys (Resume_run rid)"
proof -
  from assms have "Resume_run rid \<in> set es" by (metis count_list_0_iff not_less_zero)
  then obtain xs ys where es: "es = xs @ Resume_run rid # ys" "Resume_run rid \<notin> set xs"
    by (blast dest: split_list_first)
  from es assms have "n \<le> count_list ys (Resume_run rid)"
    by (simp add: count_list_0_iff)
  with es show thesis by (rule that)
qed

text \<open>The events before the first iteration of \<open>rid\<close> leave what \<open>rid\<close> depends on as it was.\<close>

lemma server_run_first_resume:
  assumes "es = xs @ Resume_run rid # ys" "Resume_run rid \<notin> set xs" "\<forall>q. Arrive (Run_graph q rid) \<notin> set es"
  obtains s1 where "srv_view rid s1 = srv_view rid s"
    "fst (server_run es s) = fst (server_run ys (fst (server_step (Resume_run rid) s1)))"
    "set (case snd (server_step (Resume_run rid) s1) of None \<Rightarrow> [] | Some r \<Rightarrow> [r]) \<union>
     set (snd (server_run ys (fst (server_step (Resume_run rid) s1)))) \<subseteq> set (snd (server_run es s))"
proof
  let ?s1 = "fst (server_run xs s)"
  from assms have "\<forall>e\<in>set xs. \<not> srv_concerns rid e"
    by (auto simp: srv_concerns_iff)
  then show "srv_view rid ?s1 = srv_view rid s" by (rule server_run_other)
  show "fst (server_run es s) = fst (server_run ys (fst (server_step (Resume_run rid) ?s1)))"
    using assms(1) by (simp add: server_run_append server_run_Cons)
  show "set (case snd (server_step (Resume_run rid) ?s1) of None \<Rightarrow> [] | Some r \<Rightarrow> [r]) \<union>
     set (snd (server_run ys (fst (server_step (Resume_run rid) ?s1)))) \<subseteq> set (snd (server_run es s))"
    using assms(1) by (auto simp: server_run_append server_run_Cons)
qed

text \<open>The iteration that leaves the loop answers the endpoint's request and freezes the record.\<close>

lemma server_finish:
  assumes view: "srv_view rid s = (Some (g, cur), Some run, tr)" and step: "loop_step g tr run cur = Inl fin"
    and n: "0 < count_list es (Resume_run rid)" and fresh: "\<forall>q. Arrive (Run_graph q rid) \<notin> set es"
  shows "(To_run rid, run_response (snd (finish_run (fst fin) (snd fin)))) \<in> set (snd (server_run es s)) \<and>
         get_run rid (engine (srv_app (fst (server_run es s)))) = Some (fst (finish_run (fst fin) (snd fin)))"
proof -
  from n obtain xs ys where es: "es = xs @ Resume_run rid # ys" "Resume_run rid \<notin> set xs"
    by (rule first_resume)
  from es fresh obtain s1 where v1: "srv_view rid s1 = srv_view rid s"
    and fin: "fst (server_run es s) = fst (server_run ys (fst (server_step (Resume_run rid) s1)))"
    and out: "set (case snd (server_step (Resume_run rid) s1) of None \<Rightarrow> [] | Some r \<Rightarrow> [r]) \<union>
              set (snd (server_run ys (fst (server_step (Resume_run rid) s1)))) \<subseteq> set (snd (server_run es s))"
    by (rule server_run_first_resume)
  note r = server_resume_Inl [OF v1 [unfolded view] step]
  from fresh es have "\<forall>q. Arrive (Run_graph q rid) \<notin> set ys" by auto
  from server_run_idle [OF _ this, of "fst (server_step (Resume_run rid) s1)"] r(2)
  have "srv_view rid (fst (server_run ys (fst (server_step (Resume_run rid) s1)))) =
          (None, Some (fst (finish_run (fst fin) (snd fin))), tr)"
    by (simp add: srv_view_def)
  with fin out r(1) show ?thesis by (auto simp: srv_view_def)
qed

text \<open>The run's outcome is reached after a number of its iterations that does not depend
  on the other events.\<close>

definition answers :: "string \<Rightarrow> nat \<Rightarrow> _ \<Rightarrow> graph_run \<times> loop_exit \<Rightarrow> bool" where
  "answers rid n v fin \<longleftrightarrow>
     (\<forall>s es. srv_view rid s = v \<longrightarrow> n \<le> count_list es (Resume_run rid) \<longrightarrow>
        (\<forall>q. Arrive (Run_graph q rid) \<notin> set es) \<longrightarrow>
        (To_run rid, run_response (snd (finish_run (fst fin) (snd fin)))) \<in> set (snd (server_run es s)) \<and>
        get_run rid (engine (srv_app (fst (server_run es s)))) = Some (fst (finish_run (fst fin) (snd fin))))"

lemma answers_finish: "loop_step g tr run cur = Inl fin \<Longrightarrow> answers rid 1 (Some (g, cur), Some run, tr) fin"
  unfolding answers_def
proof (intro allI impI)
  fix s es
  assume "loop_step g tr run cur = Inl fin" "srv_view rid s = (Some (g, cur), Some run, tr)"
    "1 \<le> count_list es (Resume_run rid)" "\<forall>q. Arrive (Run_graph q rid) \<notin> set es"
  then show "(To_run rid, run_response (snd (finish_run (fst fin) (snd fin)))) \<in> set (snd (server_run es s)) \<and>
        get_run rid (engine (srv_app (fst (server_run es s)))) = Some (fst (finish_run (fst fin) (snd fin)))"
    by (intro server_finish) simp_all
qed

lemma answers_continue:
  assumes step: "loop_step g tr run cur = Inr (run', cur')" and IH: "answers rid n (Some (g, cur'), Some run', tr) fin"
  shows "answers rid (Suc n) (Some (g, cur), Some run, tr) fin"
  unfolding answers_def
proof (intro allI impI)
  fix s es
  assume view: "srv_view rid s = (Some (g, cur), Some run, tr)" and n: "Suc n \<le> count_list es (Resume_run rid)"
    and fresh: "\<forall>q. Arrive (Run_graph q rid) \<notin> set es"
  from n have "n < count_list es (Resume_run rid)" by simp
  then obtain xs ys where es: "es = xs @ Resume_run rid # ys" "Resume_run rid \<notin> set xs"
    and ys: "n \<le> count_list ys (Resume_run rid)"
    by (rule first_resume)
  from es fresh obtain s1 where v1: "srv_view rid s1 = srv_view rid s"
    and fin: "fst (server_run es s) = fst (server_run ys (fst (server_step (Resume_run rid) s1)))"
    and out: "set (case snd (server_step (Resume_run rid) s1) of None \<Rightarrow> [] | Some r \<Rightarrow> [r]) \<union>
              set (snd (server_run ys (fst (server_step (Resume_run rid) s1)))) \<subseteq> set (snd (server_run es s))"
    by (rule server_run_first_resume)
  note r = server_resume_Inr [OF v1 [unfolded view] step]
  from fresh es have "\<forall>q. Arrive (Run_graph q rid) \<notin> set ys" by auto
  with IH r(2) ys fin out
  show "(To_run rid, run_response (snd (finish_run (fst fin) (snd fin)))) \<in> set (snd (server_run es s)) \<and>
        get_run rid (engine (srv_app (fst (server_run es s)))) = Some (fst (finish_run (fst fin) (snd fin)))"
    unfolding answers_def by auto
qed

lemma server_run_exec: "run_exec g tr run cur fin \<Longrightarrow> \<exists>n. answers rid n (Some (g, cur), Some run, tr) fin"
proof (induction rule: run_exec.induct)
  case (continue c h run r fin)
  then obtain n where IH: "answers rid n (Some (g, next_node r), Some (log_message (visit_run run c (h (state run) tr)) (message r)), tr) fin"
    by blast
  from continue.hyps(1-3) have "loop_step g tr run (Some c) =
      Inr (log_message (visit_run run c (h (state run) tr)) (message r), next_node r)"
    by (simp add: loop_step_node)
  from answers_continue [OF this IH] show ?case by blast
qed (rule exI, rule answers_finish, simp add: loop_step_stop loop_step_missing loop_step_node)+

lemma server_start_view:
  assumes "py_get (graphs (engine (srv_app s))) gid = Some g"
  shows "srv_view rid (with_conc (conc_step (Start rid gid init) (srv_conc s)) s) =
           (Some (g, Some (start_node g)), Some (new_run rid gid init), tool_registry (engine (srv_app s)))"
  using assms by (simp add: srv_view_def get_run_def pydict_simps)

text \<open>A request for a registered graph: the run it starts answers it as \<open>run_graph\<close> returns.\<close>

lemma server_answers_registered:
  assumes g: "py_get (graphs (engine (srv_app s))) (run_request_graph_id p) = Some g"
    and ex: "run_exec g (tool_registry (engine (srv_app s))) (new_run rid (run_request_graph_id p) (Some (initial_state p)))
               (Some (start_node g)) fin"
  shows "\<exists>n. \<forall>es. n \<le> count_list es (Resume_run rid) \<longrightarrow> (\<forall>q. Arrive (Run_graph q rid) \<notin> set es) \<longrightarrow>
           (To_run rid, run_response (snd (finish_run (fst fin) (snd fin)))) \<in>
             set (snd (server_run (Arrive (Run_graph p rid) # es) s)) \<and>
           get_run rid (engine (srv_app (fst (server_run (Arrive (Run_graph p rid) # es) s)))) =
             Some (fst (finish_run (fst fin) (snd fin)))"
proof -
  let ?s1 = "with_conc (conc_step (Start rid (run_request_graph_id p) (Some (initial_state p))) (srv_conc s)) s"
  from g have step: "server_step (Arrive (Run_graph p rid)) s = (?s1, None)" by (simp add: has_graph_get)
  from server_run_exec [OF ex] obtain n where
    "answers rid n (srv_view rid ?s1) fin" unfolding server_start_view [OF g] by blast
  then have "\<forall>es. n \<le> count_list es (Resume_run rid) \<longrightarrow> (\<forall>q. Arrive (Run_graph q rid) \<notin> set es) \<longrightarrow>
      (To_run rid, run_response (snd (finish_run (fst fin) (snd fin)))) \<in> set (snd (server_run es ?s1)) \<and>
      get_run rid (engine (srv_app (fst (server_run es ?s1)))) = Some (fst (finish_run (fst fin) (snd fin)))"
    unfolding answers_def by blast
  then show ?thesis
    by (intro exI [of _ n]) (simp only: server_run_Cons step fst_conv snd_conv option.case append_Nil)
qed

text \<open>C27. The interleaved server answers every POST /graph/run as the sequential endpoint does: whatever other requests arrive and whatever other runs are resumed meanwhile (graph registrations included), once the run has had enough iterations the request gets exactly the response run_graph_endpoint gives on the server state at its arrival, and the run table holds exactly the record that endpoint stores.\<close>

theorem server_answers_as_sequential:
  assumes seq: "run_graph_endpoint p rid (srv_app s) = Some (a', resp)"
    and idle: "py_get (srv_flight s) rid = None"
  shows "\<exists>n. \<forall>es. n \<le> count_list es (Resume_run rid) \<longrightarrow> (\<forall>q. Arrive (Run_graph q rid) \<notin> set es) \<longrightarrow>
           (To_run rid, resp) \<in> set (snd (server_run (Arrive (Run_graph p rid) # es) s)) \<and>
           get_run rid (engine (srv_app (fst (server_run (Arrive (Run_graph p rid) # es) s)))) =
             get_run rid (engine a')"
proof (cases "has_graph (run_request_graph_id p) (engine (srv_app s))")
  case False
  with seq have a': "a' = srv_app s"
    and resp: "resp = Http_error 404 (''Graph '' @ quoted (run_request_graph_id p) @ '' is not registered.'')"
    by (simp_all add: run_graph_endpoint_def)
  have "srv_view rid (fst (server_run es s)) = srv_view rid s" if "\<forall>q. Arrive (Run_graph q rid) \<notin> set es" for es
    using server_run_idle [OF idle that] .
  with False a' resp show ?thesis
    by (intro exI [of _ 0]) (auto simp: server_run_Cons srv_view_def)
next
  case True
  let ?a = "srv_app s"
  from True seq obtain eng' res where rg: "run_graph (run_request_graph_id p) (Some (initial_state p)) rid (engine ?a) = Some (eng', res)"
    and a': "a' = ?a\<lparr>engine := eng'\<rparr>" and resp: "resp = run_response res"
    by (auto simp: run_graph_endpoint_def run_response_def split: sum.split)
  from rg True obtain g run' ex where g: "py_get (graphs (engine ?a)) (run_request_graph_id p) = Some g"
    and ex: "run_exec g (tool_registry (engine ?a)) (new_run rid (run_request_graph_id p) (Some (initial_state p)))
               (Some (start_node g)) (run', ex)"
    and eng': "eng' = engine ?a\<lparr>runs := py_set rid (fst (finish_run run' ex)) (runs (engine ?a))\<rparr>"
    and res: "res = snd (finish_run run' ex)"
    by (rule run_graph_SomeE)
  from server_answers_registered [OF g ex] show ?thesis
    by (simp add: a' eng' resp res get_run_def pydict_simps)
qed

lemma finish_run_frame:
  "run_id (fst (finish_run r ex)) = run_id r \<and> graph_id (fst (finish_run r ex)) = graph_id r \<and>
   (status r \<noteq> Pending \<longrightarrow> status (fst (finish_run r ex)) \<noteq> Pending)"
  by (cases ex) (simp_all add: Let_def append_log_def)

lemma app_wf_get_run:
  "app_wf a \<Longrightarrow> get_run rid (engine a) = Some r \<Longrightarrow>
   run_id r = rid \<and> has_graph (graph_id r) (engine a) \<and> status r \<noteq> Pending"
  by (auto simp: app_wf_def list_all_iff get_run_def py_get_def dest: map_of_SomeD)

lemma in_flight_running_with_conc:
  "in_flight_running (srv_conc (with_conc c s)) = in_flight_running c"
  by (simp add: in_flight_running_def srv_conc_def)

text \<open>An iteration of \<open>rid\<close> writes back a record of the same run and graph, never \<open>pending\<close>.\<close>

lemma resume_wf:
  assumes wf: "app_wf a"
  shows "app_wf (a\<lparr>engine := conc_engine (conc_step (Resume rid) \<lparr>conc_engine = engine a, in_flight = fl\<rparr>)\<rparr>)"
proof (cases "\<exists>g cur run. py_get fl rid = Some (g, cur) \<and> get_run rid (engine a) = Some run")
  case False
  then have "conc_step (Resume rid) \<lparr>conc_engine = engine a, in_flight = fl\<rparr> = \<lparr>conc_engine = engine a, in_flight = fl\<rparr>"
    by (auto simp: get_run_def split: option.splits prod.splits)
  with wf show ?thesis by (simp del: conc_step.simps)
next
  case True
  then obtain g cur run where fr: "py_get fl rid = Some (g, cur)" and rn: "get_run rid (engine a) = Some run"
    by blast
  from app_wf_get_run [OF wf rn] have r: "run_id run = rid" "has_graph (graph_id run) (engine a)" "status run \<noteq> Pending"
    by simp_all
  show ?thesis
  proof (cases "loop_step g (tool_registry (engine a)) run cur")
    case (Inl fin)
    with loop_step_frame [of g "tool_registry (engine a)" run cur "fst fin" "snd fin"] finish_run_frame [of "fst fin" "snd fin"] r
    have "run_id (fst (finish_run (fst fin) (snd fin))) = rid"
      "has_graph (graph_id (fst (finish_run (fst fin) (snd fin)))) (engine a)"
      "status (fst (finish_run (fst fin) (snd fin))) \<noteq> Pending" by auto
    with fr rn Inl show ?thesis by (auto intro!: app_wf_engine_runs [OF wf] simp: get_run_def)
  next
    case (Inr nxt)
    with loop_step_frame [of g "tool_registry (engine a)" run cur "fst nxt" _ "snd nxt"] r
    have "run_id (fst nxt) = rid" "has_graph (graph_id (fst nxt)) (engine a)" "status (fst nxt) \<noteq> Pending" by auto
    with fr rn Inr show ?thesis by (auto intro!: app_wf_engine_runs [OF wf] simp: get_run_def)
  qed
qed

lemma srv_app_with_conc: "srv_app (with_conc c s) = (srv_app s)\<lparr>engine := conc_engine c\<rparr>"
  by (simp add: with_conc_def)

lemma server_step_wf:
  assumes wf: "server_wf s"
  shows "server_wf (fst (server_step e s))"
proof -
  have conc: "in_flight_running (srv_conc (with_conc (conc_step ev (srv_conc s)) s))" for ev
    using wf by (simp add: in_flight_running_with_conc conc_step_in_flight_running server_wf_def)
  show ?thesis
  proof (cases e)
    case (Arrive req)
    show ?thesis
    proof (cases req)
      case (Create_graph p)
      let ?a = "fst (create_graph p (srv_app s))"
      have st: "fst (server_step e s) = s\<lparr>srv_app := ?a\<rparr>"
        using Arrive Create_graph by (simp split: prod.split)
      have "runs (engine ?a) = runs (engine (srv_app s))"
        by (auto simp: create_graph_def register_graph_def Let_def split: option.splits)
      with wf have "in_flight_running (srv_conc (s\<lparr>srv_app := ?a\<rparr>))"
        by (simp add: server_wf_def in_flight_running_def shows_running_def get_run_def srv_conc_def)
      with wf st show ?thesis by (simp add: server_wf_def create_graph_wf)
    next
      case (Run_graph p rid)
      show ?thesis
      proof (cases "has_graph (run_request_graph_id p) (engine (srv_app s))")
        case True
        then obtain g where g: "py_get (graphs (engine (srv_app s))) (run_request_graph_id p) = Some g"
          by (auto simp: has_graph_get)
        from wf True have "app_wf (srv_app (with_conc (conc_step (Start rid (run_request_graph_id p)
                              (Some (initial_state p))) (srv_conc s)) s))"
          by (auto simp: srv_app_with_conc g server_wf_def new_run_def intro!: app_wf_engine_runs)
        with conc Arrive Run_graph True show ?thesis by (simp add: server_wf_def del: conc_step.simps)
      qed (use Arrive Run_graph wf in simp)
    qed (use Arrive wf in simp)
  next
    case (Resume_run rid)
    from wf have "app_wf (srv_app (with_conc (conc_step (Resume rid) (srv_conc s)) s))"
      unfolding srv_app_with_conc srv_conc_def server_wf_def by (intro resume_wf) simp
    with conc Resume_run show ?thesis by (simp add: server_wf_def del: conc_step.simps)
  qed
qed

text \<open>C12. The server invariant holds under concurrency: in every state reachable from startup through any interleaving of requests and iterations of the runs they started (with run ids drawn fresh), the module state is well formed (the invariant app_wf of the sequential server: unique keys, each run stored under its own id for a registered graph and never pending, the default tools registered) and every suspended run shows as running.\<close>

theorem server_reachable_wf: "server_reachable b s \<Longrightarrow> server_wf s"
proof (induction rule: server_reachable.induct)
  case startup
  show ?case by (simp add: server_wf_def app_wf_initial in_flight_running_def srv_conc_def py_keys_def)
next
  case (step s e s' out)
  from server_step_wf [OF step.IH, of e] step.hyps(3) show ?case by simp
qed

end
