(* ===== verification/Trace.thy ===== *)
theory Trace
  imports Engine
begin

text \<open>
  The node invocations of a run, computed independently of the run record: \<open>invoked\<close>
  follows the transitions from a start node and a state, and \<open>apply_path\<close> re-runs a list
  of nodes on a state, each on the state the previous one left. The round-trip theorem
  says that the state \<open>run_graph\<close> stores is the initial state after exactly the invoked
  nodes' mutations, in order, and that each invocation is announced in the log.
\<close>

text \<open>How the walk from a node ends: the test of \<open>while current:\<close> fails, the named node is
  missing, or the last node raises.\<close>

datatype halt = Halt_done | Halt_missing string | Halt_raised exc

partial_function (option) invoked ::
  "'f graph_definition \<Rightarrow> 'f tool_registry \<Rightarrow> state \<Rightarrow> string option \<Rightarrow> (string list \<times> halt) option" where
  "invoked g tr st cur =
     (if \<not> py_truthy cur then Some ([], Halt_done)
      else case py_get (nodes g) (the cur) of
             None \<Rightarrow> Some ([], Halt_missing (the cur))
           | Some h \<Rightarrow>
               (case outcome (h st tr) of
                  Inl e \<Rightarrow> Some ([the cur], Halt_raised e)
                | Inr r \<Rightarrow> Option.bind (invoked g tr (state_after (h st tr)) (next_node r))
                             (\<lambda>(cs, hl). Some (the cur # cs, hl))))"

declare invoked.simps [code]

fun apply_path :: "'f graph_definition \<Rightarrow> 'f tool_registry \<Rightarrow> string list \<Rightarrow> state \<Rightarrow> state" where
  "apply_path g tr [] st = st"
| "apply_path g tr (c # cs) st =
     (case py_get (nodes g) c of
        None \<Rightarrow> st
      | Some h \<Rightarrow> apply_path g tr cs (state_after (h st tr)))"

text \<open>The log lines of the invoked nodes, each on the state the previous one left: its
  \<open>Executing node\<close> line, the lines it logged, and its message when it returned one.\<close>

fun path_log :: "'f graph_definition \<Rightarrow> 'f tool_registry \<Rightarrow> string list \<Rightarrow> state \<Rightarrow> string list" where
  "path_log g tr [] st = []"
| "path_log g tr (c # cs) st =
     (case py_get (nodes g) c of
        None \<Rightarrow> []
      | Some h \<Rightarrow>
          executing_msg c # logged (h st tr) @
          (case outcome (h st tr) of
             Inr r \<Rightarrow> (if py_truthy (message r) then [the (message r)] else [])
           | Inl e \<Rightarrow> []) @
          path_log g tr cs (state_after (h st tr)))"

text \<open>The lines that end the log, and the final status, as the specification (sections 4.3
  and 7) describes them for each way a walk ends.\<close>

fun end_lines :: "halt \<Rightarrow> string list" where
  "end_lines Halt_done = [completed_msg]"
| "end_lines (Halt_missing c) = [node_not_found_msg c, completed_msg]"
| "end_lines (Halt_raised e) = (if is_exception e then [failed_msg e] else [])"

fun halt_status :: "halt \<Rightarrow> run_status" where
  "halt_status (Halt_raised e) = (if is_exception e then Failed else Running)"
| "halt_status _ = Completed"

lemma log_message_fields:
  "state (log_message r m) = state r"
  "logs (log_message r m) = logs r @ (if py_truthy m then [the m] else [])"
  by (simp_all add: log_message_def append_log_def)

text \<open>The loop refines the walk: it ends with the walk's state, its log lines (and the
  missing-node line), the exit the walk's halt names, and, after a raise, the raising
  node as current node.\<close>

fun loop_lines :: "halt \<Rightarrow> string list" where
  "loop_lines (Halt_missing c) = [node_not_found_msg c]"
| "loop_lines _ = []"

fun halt_exit :: "halt \<Rightarrow> loop_exit" where
  "halt_exit (Halt_raised e) = Loop_raised e"
| "halt_exit _ = Loop_finished"

lemma run_exec_invoked:
  "run_exec g tr run cur fin \<Longrightarrow>
   \<exists>cs hl. invoked g tr (state run) cur = Some (cs, hl) \<and>
     state (fst fin) = apply_path g tr cs (state run) \<and>
     list_all (\<lambda>c. py_get (nodes g) c \<noteq> None) cs \<and>
     logs (fst fin) = logs run @ path_log g tr cs (state run) @ loop_lines hl \<and>
     snd fin = halt_exit hl \<and>
     (\<forall>e. hl = Halt_raised e \<longrightarrow> cs \<noteq> [] \<and> current_node (fst fin) = Some (last cs))"
proof (induction rule: run_exec.induct)
  case (stop cur run)
  then show ?case by (simp add: invoked.simps)
next
  case (missing c run)
  then show ?case by (simp add: invoked.simps)
next
  case (raised c h run e)
  then show ?case by (simp add: invoked.simps visit_run_def)
next
  case (continue c h run r fin)
  then obtain cs hl where
    cs: "invoked g tr (state_after (h (state run) tr)) (next_node r) = Some (cs, hl)"
    and st: "state (fst fin) = apply_path g tr cs (state_after (h (state run) tr))"
    and ok: "list_all (\<lambda>c. py_get (nodes g) c \<noteq> None) cs"
    and lg: "logs (fst fin) = logs (log_message (visit_run run c (h (state run) tr)) (message r)) @
                path_log g tr cs (state_after (h (state run) tr)) @ loop_lines hl"
    and ex: "snd fin = halt_exit hl"
    and cn: "\<forall>e. hl = Halt_raised e \<longrightarrow> cs \<noteq> [] \<and> current_node (fst fin) = Some (last cs)"
    by (auto simp: log_message_fields visit_run_def)
  with continue.hyps show ?case
    by (intro exI [of _ "c # cs"] exI [of _ hl]) (simp add: invoked.simps log_message_fields visit_run_def)
qed

lemma finish_run_state: "state (fst (finish_run r ex)) = state r"
  by (cases ex) (auto simp: Let_def append_log_def)

text \<open>The epilogue on a walk's exit: the end lines, the status, the current node cleared
  unless the run stopped in a raise, and the result returned or raised.\<close>

lemma finish_run_halt:
  "logs (fst (finish_run run (halt_exit hl))) = logs run @ (case hl of Halt_missing c \<Rightarrow> [completed_msg] | _ \<Rightarrow> end_lines hl) \<and>
   state (fst (finish_run run (halt_exit hl))) = state run \<and>
   status (fst (finish_run run (halt_exit hl))) =
     (case hl of Halt_raised e \<Rightarrow> (if is_exception e then Failed else status run) | _ \<Rightarrow> Completed) \<and>
   current_node (fst (finish_run run (halt_exit hl))) =
     (case hl of Halt_raised e \<Rightarrow> current_node run | _ \<Rightarrow> None) \<and>
   snd (finish_run run (halt_exit hl)) =
     (case hl of Halt_raised e \<Rightarrow> Inl e | _ \<Rightarrow> Inr (fst (finish_run run (halt_exit hl))))"
  by (cases hl) (simp_all add: Let_def append_log_def)

text \<open>A walk that ends makes the loop end: fixpoint induction on \<open>invoked\<close>.\<close>

lemma invoked_run_exec:
  assumes "invoked g tr st cur = Some x"
  shows "\<forall>run::graph_run. state run = st \<longrightarrow> (\<exists>fin. run_exec g tr run cur fin)"
proof (rule invoked.raw_induct [where P = "\<lambda>g tr st cur x. \<forall>run::graph_run. state run = st \<longrightarrow> (\<exists>fin. run_exec g tr run cur fin)", OF _ assms])
  fix f g tr st cur x
  assume IH: "\<And>g tr st cur x. f g tr st cur = Some x \<Longrightarrow> \<forall>run::graph_run. state run = st \<longrightarrow> (\<exists>fin. run_exec g tr run cur fin)"
    and eq: "(if \<not> py_truthy cur then Some ([], Halt_done)
             else case py_get (nodes g) (the cur) of
                    None \<Rightarrow> Some ([], Halt_missing (the cur))
                  | Some h \<Rightarrow>
                      (case outcome (h st tr) of
                         Inl e \<Rightarrow> Some ([the cur], Halt_raised e)
                       | Inr r \<Rightarrow> Option.bind (f g tr (state_after (h st tr)) (next_node r))
                                    (\<lambda>(cs, hl). Some (the cur # cs, hl)))) = Some x"
  show "\<forall>run::graph_run. state run = st \<longrightarrow> (\<exists>fin. run_exec g tr run cur fin)"
  proof (intro allI impI)
    fix run :: graph_run assume st: "state run = st"
    show "\<exists>fin. run_exec g tr run cur fin"
    proof (cases "py_truthy cur")
      case False
      then show ?thesis by (blast intro: run_exec.stop)
    next
      case True
      then obtain c where c: "cur = Some c" "c \<noteq> []" by (cases cur) auto
      show ?thesis
      proof (cases "py_get (nodes g) c")
        case None
        with c show ?thesis by (blast intro: run_exec.missing)
      next
        case (Some h)
        show ?thesis
        proof (cases "outcome (h st tr)")
          case (Inl e)
          with c Some st show ?thesis by (blast intro: run_exec.raised)
        next
          case (Inr r)
          with eq True c Some obtain y where "f g tr (state_after (h st tr)) (next_node r) = Some y"
            by (auto split: Option.bind_splits)
          from IH [OF this, rule_format, of "log_message (visit_run run c (h (state run) tr)) (message r)"] st
          obtain fin where "run_exec g tr (log_message (visit_run run c (h (state run) tr)) (message r)) (next_node r) fin"
            by (auto simp: log_message_fields visit_run_def)
          with c Some Inr st show ?thesis by (blast intro: run_exec.continue)
        qed
      qed
    qed
  qed
qed

lemma run_graph_walk_returns:
  assumes "py_get (graphs eng) gid = Some g"
    "invoked g (tool_registry eng) (case init of None \<Rightarrow> [] | Some d \<Rightarrow> d) (Some (start_node g)) = Some x"
  shows "\<exists>eng' res. run_graph gid init rid eng = Some (eng', res)"
proof -
  from invoked_run_exec [OF assms(2), rule_format, of "new_run rid gid init"] obtain fin where
    "run_exec g (tool_registry eng) (new_run rid gid init) (Some (start_node g)) fin"
    by (auto simp: new_run_def)
  then show ?thesis
    using assms(1) by (auto simp: run_graph_registered run_loop_run_exec [symmetric] split: prod.split)
qed

lemma run_graph_walk:
  assumes run: "run_graph gid init rid eng = Some (eng', res)"
    and g: "py_get (graphs eng) gid = Some g"
  shows "\<exists>cs hl r. invoked g (tool_registry eng) (case init of None \<Rightarrow> [] | Some d \<Rightarrow> d)
                      (Some (start_node g)) = Some (cs, hl) \<and>
           get_run rid eng' = Some r \<and>
           state r = apply_path g (tool_registry eng) cs (case init of None \<Rightarrow> [] | Some d \<Rightarrow> d) \<and>
           logs r = path_log g (tool_registry eng) cs (case init of None \<Rightarrow> [] | Some d \<Rightarrow> d) @ end_lines hl \<and>
           status r = halt_status hl \<and>
           current_node r = (case hl of Halt_raised e \<Rightarrow> Some (last cs) | _ \<Rightarrow> None) \<and>
           list_all (\<lambda>c. py_get (nodes g) c \<noteq> None) cs \<and>
           res = (case hl of Halt_raised e \<Rightarrow> Inl e | _ \<Rightarrow> Inr r)"
proof -
  have hg: "has_graph gid eng" using g by (simp add: has_graph_get)
  from run hg obtain g' run' ex where g': "py_get (graphs eng) gid = Some g'"
    and ex: "run_exec g' (tool_registry eng) (new_run rid gid init) (Some (start_node g')) (run', ex)"
    and eng': "eng' = eng\<lparr>runs := py_set rid (fst (finish_run run' ex)) (runs eng)\<rparr>"
    and res: "res = snd (finish_run run' ex)"
    by (rule run_graph_SomeE)
  from g g' have gg: "g' = g" by simp
  from run_exec_invoked [OF ex] gg obtain cs hl where
    iv: "invoked g (tool_registry eng) (case init of None \<Rightarrow> [] | Some d \<Rightarrow> d) (Some (start_node g)) = Some (cs, hl)"
    and st: "state run' = apply_path g (tool_registry eng) cs (case init of None \<Rightarrow> [] | Some d \<Rightarrow> d)"
    and ok: "list_all (\<lambda>c. py_get (nodes g) c \<noteq> None) cs"
    and lg: "logs run' = path_log g (tool_registry eng) cs (case init of None \<Rightarrow> [] | Some d \<Rightarrow> d) @ loop_lines hl"
    and hx: "ex = halt_exit hl"
    and cn: "\<forall>e. hl = Halt_raised e \<longrightarrow> cs \<noteq> [] \<and> current_node run' = Some (last cs)"
    by (auto simp: new_run_def)
  have sr: "status run' = Running" using run_exec_frame [OF ex] by (simp add: new_run_def)
  from finish_run_halt [of run' hl] st lg sr cn
  have "state (fst (finish_run run' ex)) = state run'"
    "logs (fst (finish_run run' ex)) = path_log g (tool_registry eng) cs (case init of None \<Rightarrow> [] | Some d \<Rightarrow> d) @ end_lines hl"
    "status (fst (finish_run run' ex)) = halt_status hl"
    "current_node (fst (finish_run run' ex)) = (case hl of Halt_raised e \<Rightarrow> Some (last cs) | _ \<Rightarrow> None)"
    "res = (case hl of Halt_raised e \<Rightarrow> Inl e | _ \<Rightarrow> Inr (fst (finish_run run' ex)))"
    unfolding hx res by (cases hl; simp)+
  with iv st ok show ?thesis
    by (intro exI [of _ cs] exI [of _ hl] exI [of _ "fst (finish_run run' ex)"])
       (simp add: eng' get_run_def pydict_simps)
qed


text \<open>A walk that ends in a raise: \<open>run_graph\<close> raises the node's exception, and the stored
  record has the walk's log followed by the end lines of a raise.\<close>

lemma run_graph_walk_raised:
  assumes g: "py_get (graphs eng) gid = Some g"
    and walk: "invoked g (tool_registry eng) (case init of None \<Rightarrow> [] | Some d \<Rightarrow> d) (Some (start_node g)) =
                 Some (cs, Halt_raised e)"
  shows "\<exists>eng' r. run_graph gid init rid eng = Some (eng', Inl e) \<and> get_run rid eng' = Some r \<and>
           logs r = path_log g (tool_registry eng) cs (case init of None \<Rightarrow> [] | Some d \<Rightarrow> d) @ end_lines (Halt_raised e) \<and>
           status r = halt_status (Halt_raised e) \<and> current_node r = Some (last cs)"
proof -
  from run_graph_walk_returns [OF g walk] obtain eng' res where run: "run_graph gid init rid eng = Some (eng', res)"
    by blast
  from run_graph_walk [OF run g] walk show ?thesis
    using run by fastforce
qed

text \<open>C2. When the walk from the start node reaches a node that raises an Exception e, run_graph propagates exactly e to its caller (the except branch re-raises it, it does not swallow it), and the stored record has status failed, stays at the raising node, and its log is the walk's log followed by the single line Run failed: e.\<close>

theorem run_graph_failed:
  assumes "py_get (graphs eng) gid = Some g"
    "invoked g (tool_registry eng) (case init of None \<Rightarrow> [] | Some d \<Rightarrow> d) (Some (start_node g)) = Some (cs, Halt_raised e)"
    "is_exception e"
  shows "\<exists>eng' r. run_graph gid init rid eng = Some (eng', Inl e) \<and> get_run rid eng' = Some r \<and>
           status r = Failed \<and> current_node r = Some (last cs) \<and>
           logs r = path_log g (tool_registry eng) cs (case init of None \<Rightarrow> [] | Some d \<Rightarrow> d) @ [failed_msg e]"
  using run_graph_walk_raised [OF assms(1,2), of rid] assms(3) by auto

text \<open>C8. An exception that is not an Exception (such as asyncio.CancelledError) raised by a node escapes except Exception: run_graph propagates it, and the stored record stays in status running at the raising node, with no failure line and no completion line: its log is exactly the walk's log.\<close>

theorem run_graph_base_exception:
  assumes "py_get (graphs eng) gid = Some g"
    "invoked g (tool_registry eng) (case init of None \<Rightarrow> [] | Some d \<Rightarrow> d) (Some (start_node g)) = Some (cs, Halt_raised e)"
    "\<not> is_exception e"
  shows "\<exists>eng' r. run_graph gid init rid eng = Some (eng', Inl e) \<and> get_run rid eng' = Some r \<and>
           status r = Running \<and> current_node r = Some (last cs) \<and>
           logs r = path_log g (tool_registry eng) cs (case init of None \<Rightarrow> [] | Some d \<Rightarrow> d)"
  using run_graph_walk_raised [OF assms(1,2), of rid] assms(3) by auto

text \<open>C26. Run graph refines the walk specification (specification, sections 4.3 and 8): for a registered graph, when run_graph returns, the record it stores is determined by the nodes the walk from the start node invokes and how the walk ends. Its state is the initial state after applying, in order, exactly the mutations of the invoked nodes, each on the state the previous one left. Its log is, node by node, the Executing node line, the node's own lines and its message, followed by the missing-node line and Run completed., Run completed., or the failure line. Its status is completed or failed as the walk ends, and its current node is cleared unless a node raised. The caller receives that record, or the exception raised.\<close>

theorem run_graph_state_roundtrip:
  assumes "run_graph gid init rid eng = Some (eng', res)" "py_get (graphs eng) gid = Some g"
  shows "\<exists>cs hl r. invoked g (tool_registry eng) (case init of None \<Rightarrow> [] | Some d \<Rightarrow> d)
                      (Some (start_node g)) = Some (cs, hl) \<and>
           get_run rid eng' = Some r \<and>
           state r = apply_path g (tool_registry eng) cs (case init of None \<Rightarrow> [] | Some d \<Rightarrow> d) \<and>
           logs r = path_log g (tool_registry eng) cs (case init of None \<Rightarrow> [] | Some d \<Rightarrow> d) @ end_lines hl \<and>
           status r = halt_status hl \<and>
           current_node r = (case hl of Halt_raised e \<Rightarrow> Some (last cs) | _ \<Rightarrow> None) \<and>
           list_all (\<lambda>c. py_get (nodes g) c \<noteq> None) cs \<and>
           res = (case hl of Halt_raised e \<Rightarrow> Inl e | _ \<Rightarrow> Inr r)"
  by (rule run_graph_walk [OF assms])

end
