(* ===== verification/Scenarios.thy ===== *)
theory Scenarios
  imports Server Trace
begin

text \<open>
  Concrete graphs for the scenarios of the specification (section 8) and the closed
  instances of the engine's conditional theorems. The demo graph has node \<open>A\<close>, which
  returns \<open>next_node="B", message="did A"\<close>, and node \<open>B\<close>, which returns
  \<open>message="did B"\<close> and no next node. Its variants make \<open>B\<close> raise an \<open>Exception\<close>
  or a \<open>BaseException\<close>, start at a missing or empty node name, or loop on \<open>A\<close>.
  All are registered in one engine whose tool registry is empty.
\<close>

section \<open>Fixtures\<close>

definition node_A :: "'f node" where
  "node_A s t = \<lparr>state_after = s, logged = [],
                  outcome = Inr \<lparr>next_node = Some ''B'', message = Some ''did A''\<rparr>\<rparr>"

definition node_B :: "'f node" where
  "node_B s t = \<lparr>state_after = s, logged = [],
                  outcome = Inr \<lparr>next_node = None, message = Some ''did B''\<rparr>\<rparr>"

definition node_B_raises :: "'f node" where
  "node_B_raises s t = \<lparr>state_after = s, logged = [], outcome = Inl (Other_exception ''boom'')\<rparr>"

definition node_B_cancelled :: "'f node" where
  "node_B_cancelled s t = \<lparr>state_after = s, logged = [], outcome = Inl (Base_exception '''')\<rparr>"

text \<open>A node that counts its visits in the state and always names itself next.\<close>

definition node_loop :: "'f node" where
  "node_loop s t =
     \<lparr>state_after = py_set ''visits''
        (case py_get s ''visits'' of Some (JInt n) \<Rightarrow> JInt (n + 1) | _ \<Rightarrow> JInt 1) s,
      logged = [''tick''], outcome = Inr \<lparr>next_node = Some ''A'', message = None\<rparr>\<rparr>"

definition demo_graph :: "unit graph_definition" where
  "demo_graph = \<lparr>start_node = ''A'', nodes = [(''A'', node_A), (''B'', node_B)]\<rparr>"

definition failing_graph :: "unit graph_definition" where
  "failing_graph = \<lparr>start_node = ''A'', nodes = [(''A'', node_A), (''B'', node_B_raises)]\<rparr>"

definition cancelled_graph :: "unit graph_definition" where
  "cancelled_graph = \<lparr>start_node = ''A'', nodes = [(''A'', node_A), (''B'', node_B_cancelled)]\<rparr>"

definition missing_start_graph :: "unit graph_definition" where
  "missing_start_graph = \<lparr>start_node = ''X'', nodes = [(''A'', node_A), (''B'', node_B)]\<rparr>"

definition empty_start_graph :: "unit graph_definition" where
  "empty_start_graph = \<lparr>start_node = '''', nodes = [(''A'', node_A), (''B'', node_B)]\<rparr>"

definition self_loop_graph :: "unit graph_definition" where
  "self_loop_graph = \<lparr>start_node = ''A'', nodes = [(''A'', node_loop)]\<rparr>"

definition demo_engine :: "unit workflow_engine" where
  "demo_engine =
     \<lparr>graphs = [(''demo'', demo_graph), (''failing'', failing_graph), (''cancelled'', cancelled_graph),
               (''missing'', missing_start_graph), (''empty'', empty_start_graph),
               (''loop'', self_loop_graph)],
      runs = [], tool_registry = new_tool_registry\<rparr>"

text \<open>A node that counts its visits in the state and passes on to \<open>B\<close>, in a graph of its own.\<close>

definition node_count :: "'f node" where
  "node_count s t =
     \<lparr>state_after = py_set ''visits''
        (case py_get s ''visits'' of Some (JInt n) \<Rightarrow> JInt (n + 1) | _ \<Rightarrow> JInt 1) s,
      logged = [], outcome = Inr \<lparr>next_node = Some ''B'', message = Some ''counted''\<rparr>\<rparr>"

definition count_graph :: "unit graph_definition" where
  "count_graph = \<lparr>start_node = ''A'', nodes = [(''A'', node_count), (''B'', node_B)]\<rparr>"

definition count_engine :: "unit workflow_engine" where
  "count_engine = \<lparr>graphs = [(''count'', count_graph)], runs = [], tool_registry = new_tool_registry\<rparr>"

definition demo_rank :: "string \<Rightarrow> nat" where
  "demo_rank c = (if c = ''A'' then 2 else if c = ''B'' then 1 else 0)"

text \<open>Two servers whose \<open>code_review\<close> builder makes the demo graph, or its failing variant.\<close>

definition demo_builder :: builder where
  "demo_builder tr = \<lparr>start_node = ''A'', nodes = [(''A'', node_A), (''B'', node_B)]\<rparr>"

definition failing_builder :: builder where
  "failing_builder tr = \<lparr>start_node = ''A'', nodes = [(''A'', node_A), (''B'', node_B_raises)]\<rparr>"

definition demo_app :: app where
  "demo_app = ensure_default_graph (initial_app demo_builder)"

definition failing_app :: app where
  "failing_app = ensure_default_graph (initial_app failing_builder)"

text \<open>A server whose \<open>code_review\<close> graph is the failing graph while its builder makes the
  demo graph: the startup hook must keep the registered graph.\<close>

definition rebuilt_app :: app where
  "rebuilt_app = failing_app\<lparr>build_code_review_workflow := demo_builder\<rparr>"

definition demo_request :: graph_run_request where
  "demo_request = \<lparr>run_request_graph_id = ''code_review'', initial_state = []\<rparr>"

definition demo_app_after_run :: app where
  "demo_app_after_run = fst (the (run_graph_endpoint demo_request ''r1'' demo_app))"

definition demo_conc :: "unit conc_state" where
  "demo_conc = \<lparr>conc_engine = demo_engine, in_flight = []\<rparr>"

text \<open>The server's own engine after startup, with a run of the default graph started and
  resumed once (node \<open>A\<close> has run, the call is suspended before \<open>B\<close>).\<close>

definition server_conc :: "default_tool conc_state" where
  "server_conc = \<lparr>conc_engine = engine demo_app, in_flight = []\<rparr>"

definition server_events :: "default_tool event list" where
  "server_events = [Start ''r1'' ''code_review'' (Some []), Resume ''r1'']"

text \<open>The server after startup with no run in flight, and after a run request and one
  iteration of its run.\<close>

definition server0 :: server where
  "server0 = \<lparr>srv_app = demo_app, srv_flight = []\<rparr>"

definition server1 :: server where
  "server1 = fst (server_run [Arrive (Run_graph demo_request ''r1''), Resume_run ''r1''] server0)"

text \<open>An interleaving of a completing run and a failing run.\<close>

definition interleaved_events :: "unit event list" where
  "interleaved_events =
     [Start ''r1'' ''demo'' (Some []), Start ''r2'' ''failing'' None, Resume ''r1'', Resume ''r2'',
      Resume ''r1'', Resume ''r2'', Resume ''r1'']"

lemmas fixture_defs = node_A_def node_B_def node_B_raises_def node_B_cancelled_def node_loop_def
  demo_graph_def failing_graph_def cancelled_graph_def missing_start_graph_def
  empty_start_graph_def self_loop_graph_def demo_engine_def new_tool_registry_def

lemmas engine_eval = run_graph_def run_loop.simps loop_step_def new_run_def append_log_def
  logger_def log_message_def get_run_def has_graph_def py_get_def py_set_def py_contains_def
  py_keys_def Let_def

section \<open>Evaluations\<close>

lemmas api_eval = run_graph_endpoint_def get_run_state_def ensure_default_graph_def initial_app_def
  new_engine_def register_graph_def register_default_tools_def register_def create_graph_def
  run_result_of_def demo_app_def failing_app_def demo_request_def demo_builder_def failing_builder_def


lemma demo_run_returns:
  "\<exists>eng' r. run_graph ''demo'' (Some []) ''r1'' demo_engine = Some (eng', Inr r)"
  by (simp add: engine_eval fixture_defs)

lemma failing_run_raises:
  "\<exists>eng'. run_graph ''failing'' (Some []) ''r1'' demo_engine = Some (eng', Inl (Other_exception ''boom''))"
  by (simp add: engine_eval fixture_defs)

lemma cancelled_run_raises:
  "\<exists>eng'. run_graph ''cancelled'' None ''r1'' demo_engine = Some (eng', Inl (Base_exception ''''))"
  by (simp add: engine_eval fixture_defs)

lemma demo_has_graphs:
  "py_get (graphs demo_engine) ''demo'' = Some demo_graph"
  "py_get (graphs demo_engine) ''missing'' = Some missing_start_graph"
  "py_get (graphs demo_engine) ''empty'' = Some empty_start_graph"
  "py_get (graphs demo_engine) ''loop'' = Some self_loop_graph"
  "has_graph ''failing'' demo_engine" "has_graph ''cancelled'' demo_engine"
  "\<not> has_graph ''nope'' demo_engine"
  by (simp_all add: engine_eval demo_engine_def)

section \<open>Witnesses\<close>

theorem run_graph_unregistered_witness:
  "\<not> has_graph ''nope'' demo_engine \<and>
   run_graph ''nope'' None ''r1'' demo_engine =
     Some (demo_engine, Inl (Key_error (graph_not_registered_msg ''nope'')))"
  using demo_has_graphs(7) run_graph_unregistered [OF demo_has_graphs(7)] by simp

theorem run_graph_completed_witness:
  "\<exists>eng' r. run_graph ''demo'' (Some []) ''r1'' demo_engine = Some (eng', Inr r) \<and>
     get_run ''r1'' eng' = Some r \<and> run_id r = ''r1'' \<and> graph_id r = ''demo'' \<and>
     status r = Completed \<and> current_node r = None \<and> last (logs r) = completed_msg"
proof -
  obtain eng' r where eq: "run_graph ''demo'' (Some []) ''r1'' demo_engine = Some (eng', Inr r)"
    using demo_run_returns by blast
  with run_graph_completed [OF eq] show ?thesis by blast
qed

theorem run_graph_missing_start_witness:
  "run_graph ''missing'' None ''r1'' demo_engine =
     Some (demo_engine\<lparr>runs := [(''r1'', \<lparr>run_id = ''r1'', graph_id = ''missing'', state = [],
             logs = [node_not_found_msg ''X'', completed_msg], status = Completed,
             current_node = None\<rparr>)]\<rparr>,
           Inr \<lparr>run_id = ''r1'', graph_id = ''missing'', state = [],
             logs = [node_not_found_msg ''X'', completed_msg], status = Completed,
             current_node = None\<rparr>)"
proof -
  have h2: "start_node missing_start_graph \<noteq> []" by (simp add: missing_start_graph_def)
  have h3: "py_get (nodes missing_start_graph) (start_node missing_start_graph) = None"
    by (simp add: missing_start_graph_def py_get_def)
  show ?thesis
    using run_graph_missing_start [OF demo_has_graphs(2) h2 h3, of None "''r1''"]
    by (simp add: Let_def new_run_def missing_start_graph_def demo_engine_def py_set_def)
qed

theorem run_graph_empty_start_witness:
  "run_graph ''empty'' None ''r1'' demo_engine =
     Some (demo_engine\<lparr>runs := [(''r1'', \<lparr>run_id = ''r1'', graph_id = ''empty'', state = [],
             logs = [completed_msg], status = Completed, current_node = None\<rparr>)]\<rparr>,
           Inr \<lparr>run_id = ''r1'', graph_id = ''empty'', state = [],
             logs = [completed_msg], status = Completed, current_node = None\<rparr>)"
proof -
  have h2: "start_node empty_start_graph = []" by (simp add: empty_start_graph_def)
  show ?thesis
    using run_graph_empty_start [OF demo_has_graphs(3) h2, of None "''r1''"]
    by (simp add: Let_def new_run_def demo_engine_def py_set_def)
qed

lemma demo_graph_ranked: "ranked_by demo_graph (tool_registry demo_engine) demo_rank"
  by (auto simp: ranked_by_def demo_graph_def py_get_def node_A_def node_B_def demo_rank_def
           split: if_splits)

theorem run_graph_terminates_witness:
  "\<exists>eng' res. run_graph ''demo'' None ''r7'' demo_engine = Some (eng', res)"
  by (rule run_graph_terminates [OF demo_has_graphs(1) demo_graph_ranked])

lemma self_loop_trap: "loops_within self_loop_graph (tool_registry demo_engine) {''A''}"
  by (simp add: loops_within_def self_loop_graph_def py_get_def node_loop_def)

theorem run_graph_diverges_witness:
  "run_graph ''loop'' (Some [(''visits'', JInt 0)]) ''r1'' demo_engine = None"
  by (rule run_graph_diverges [OF demo_has_graphs(4) self_loop_trap])
     (simp add: self_loop_graph_def)

theorem loop_step_log_order_witness:
  "loop_step demo_graph new_tool_registry (new_run ''r1'' ''demo'' (Some [])) (Some ''A'') =
     Inr ((new_run ''r1'' ''demo'' (Some []))\<lparr>current_node := Some ''A'',
            logs := [executing_msg ''A'', ''did A'']\<rparr>, Some ''B'') \<and>
   logs ((new_run ''r1'' ''demo'' (Some []))\<lparr>current_node := Some ''A'',
            logs := [executing_msg ''A'', ''did A'']\<rparr>) =
     logs (new_run ''r1'' ''demo'' (Some [])) @ [executing_msg ''A''] @
     logged (node_A [] (new_tool_registry :: unit tool_registry)) @ [''did A'']"
proof -
  let ?run = "new_run ''r1'' ''demo'' (Some [])"
  let ?run' = "?run\<lparr>current_node := Some ''A'', logs := [executing_msg ''A'', ''did A'']\<rparr>"
  have step: "loop_step demo_graph new_tool_registry ?run (Some ''A'') = Inr (?run', Some ''B'')"
    by (simp add: loop_step_def demo_graph_def py_get_def node_A_def new_run_def append_log_def
                  logger_def log_message_def Let_def)
  have h: "''A'' \<noteq> []" "py_get (nodes demo_graph) ''A'' = Some node_A"
    "outcome (node_A (state ?run) new_tool_registry) = Inr \<lparr>next_node = Some ''B'', message = Some ''did A''\<rparr>"
    by (simp_all add: demo_graph_def py_get_def node_A_def)
  from loop_step_log_order [OF h step] step show ?thesis by (simp add: new_run_def)
qed

theorem detect_smells_comment_witness:
  "code_lines (''# a'' @ [CHR 0x0A] @ ''# b'' @ [CHR 0x0A] @ ''c'') \<noteq> [] \<and>
   comment_msg \<in> set (detect_smells (''# a'' @ [CHR 0x0A] @ ''# b'' @ [CHR 0x0A] @ ''c''))"
proof -
  let ?code = "''# a'' @ [CHR 0x0A] @ ''# b'' @ [CHR 0x0A] @ ''c''"
  have lines: "code_lines ?code = [''# a'', ''# b'', ''c'']"
    by (simp add: code_lines_def py_splitlines_def is_line_boundary_def py_strip_def is_py_space_def)
  then have h: "code_lines ?code \<noteq> []" by simp
  have "length (code_lines ?code) < 2 * length (filter (prefix ''#'') (code_lines ?code))"
    unfolding lines by simp
  with h detect_smells_comment [OF h] show ?thesis by simp
qed

lemma demo_app_run:
  "run_graph_endpoint demo_request ''r1'' demo_app = Some (demo_app_after_run, Run_result (run_result_of
     \<lparr>run_id = ''r1'', graph_id = ''code_review'', state = [],
      logs = [executing_msg ''A'', ''did A'', executing_msg ''B'', ''did B'', completed_msg],
      status = Completed, current_node = None\<rparr>))"
  by (simp add: demo_app_after_run_def api_eval engine_eval fixture_defs executing_msg_def completed_msg_def)

lemma demo_app_after_run_facts:
  "py_keys (runs (engine demo_app)) = []"
  "py_keys (runs (engine demo_app_after_run)) = [''r1'']"
  "get_run ''r1'' (engine demo_app_after_run) =
     Some \<lparr>run_id = ''r1'', graph_id = ''code_review'', state = [],
           logs = [executing_msg ''A'', ''did A'', executing_msg ''B'', ''did B'', completed_msg],
           status = Completed, current_node = None\<rparr>"
  by (simp_all add: demo_app_after_run_def api_eval engine_eval fixture_defs executing_msg_def
                    completed_msg_def)

lemma demo_app_second_run:
  "\<exists>a2 resp. serve (Run_graph demo_request ''r2'') demo_app_after_run = Some (a2, resp)"
  by (simp add: demo_app_after_run_def api_eval engine_eval fixture_defs)

lemma failing_app_run:
  "\<exists>a'. run_graph_endpoint demo_request ''r1'' failing_app = Some (a', Server_error (Other_exception ''boom''))"
  by (simp add: api_eval engine_eval fixture_defs)

lemma demo_app_reachable: "app_reachable demo_builder demo_app_after_run"
proof (rule app_reachable.step)
  show "app_reachable demo_builder demo_app" by (simp add: demo_app_def app_reachable.startup)
  show "fresh_request (Run_graph demo_request ''r1'') demo_app"
    by (simp add: demo_app_after_run_facts(1))
  show "serve (Run_graph demo_request ''r1'') demo_app = Some (demo_app_after_run, Run_result (run_result_of
     \<lparr>run_id = ''r1'', graph_id = ''code_review'', state = [],
      logs = [executing_msg ''A'', ''did A'', executing_msg ''B'', ''did B'', completed_msg],
      status = Completed, current_node = None\<rparr>))"
    by (simp add: demo_app_run)
qed

theorem app_reachable_wf_witness:
  "app_reachable demo_builder demo_app_after_run \<and> app_wf demo_app_after_run"
  using demo_app_reachable app_reachable_wf [OF demo_app_reachable] by simp

theorem stored_runs_unchanged_witness:
  "\<exists>a2 resp. serve (Run_graph demo_request ''r2'') demo_app_after_run = Some (a2, resp) \<and>
     fresh_request (Run_graph demo_request ''r2'') demo_app_after_run \<and>
     get_run ''r1'' (engine a2) =
       Some \<lparr>run_id = ''r1'', graph_id = ''code_review'', state = [],
             logs = [executing_msg ''A'', ''did A'', executing_msg ''B'', ''did B'', completed_msg],
             status = Completed, current_node = None\<rparr>"
proof -
  obtain a2 resp where sv: "serve (Run_graph demo_request ''r2'') demo_app_after_run = Some (a2, resp)"
    using demo_app_second_run by blast
  have fr: "fresh_request (Run_graph demo_request ''r2'') demo_app_after_run"
    by (simp add: demo_app_after_run_facts(2))
  from sv fr stored_runs_unchanged [OF demo_app_after_run_facts(3) fr sv] show ?thesis by blast
qed

theorem run_endpoint_unregistered_witness:
  "\<not> has_graph (run_request_graph_id \<lparr>run_request_graph_id = ''nope'', initial_state = []\<rparr>) (engine demo_app) \<and>
   run_graph_endpoint \<lparr>run_request_graph_id = ''nope'', initial_state = []\<rparr> ''r1'' demo_app =
     Some (demo_app, Http_error 404 (''Graph '' @ quoted ''nope'' @ '' is not registered.''))"
proof -
  have h: "\<not> has_graph (run_request_graph_id \<lparr>run_request_graph_id = ''nope'', initial_state = []\<rparr>) (engine demo_app)"
    by (simp add: api_eval has_graph_get py_get_def py_set_def)
  show ?thesis using h run_endpoint_unregistered [OF h, of "''r1''"] by simp
qed

theorem run_endpoint_state_agrees_witness:
  "run_graph_endpoint demo_request ''r1'' demo_app = Some (demo_app_after_run, Run_result (run_result_of
     \<lparr>run_id = ''r1'', graph_id = ''code_review'', state = [],
      logs = [executing_msg ''A'', ''did A'', executing_msg ''B'', ''did B'', completed_msg],
      status = Completed, current_node = None\<rparr>)) \<and>
   get_run_state ''r1'' demo_app_after_run =
     State_result \<lparr>state_run_id = ''r1'', state_graph_id = ''code_review'', state_state = [],
       state_logs = [executing_msg ''A'', ''did A'', executing_msg ''B'', ''did B'', completed_msg],
       state_status = ''completed'', state_current_node = None\<rparr>"
  using demo_app_run run_endpoint_state_agrees [OF demo_app_run] by (simp add: run_result_of_def)

theorem create_graph_unknown_witness:
  "py_get (workflow_builders demo_app) (workflow \<lparr>create_graph_id = ''g2'', workflow = ''nope''\<rparr>) = None \<and>
   create_graph \<lparr>create_graph_id = ''g2'', workflow = ''nope''\<rparr> demo_app =
     (demo_app, Http_error 400 (''Unknown workflow '' @ quoted ''nope'' @ ''.''))"
proof -
  have h: "py_get (workflow_builders demo_app) (workflow \<lparr>create_graph_id = ''g2'', workflow = ''nope''\<rparr>) = None"
    by (simp add: api_eval has_graph_get py_get_def py_set_def)
  show ?thesis using h create_graph_unknown [OF h] by simp
qed

theorem create_graph_registers_witness:
  "py_get (workflow_builders demo_app) (workflow \<lparr>create_graph_id = ''g2'', workflow = ''code_review''\<rparr>) =
     Some demo_builder \<and>
   snd (create_graph \<lparr>create_graph_id = ''g2'', workflow = ''code_review''\<rparr> demo_app) =
     Created \<lparr>created_graph_id = ''g2'', created_start_node = ''A'', available_nodes = [''A'', ''B'']\<rparr> \<and>
   has_graph ''g2'' (engine (fst (create_graph \<lparr>create_graph_id = ''g2'', workflow = ''code_review''\<rparr> demo_app)))"
proof -
  have h: "py_get (workflow_builders demo_app) (workflow \<lparr>create_graph_id = ''g2'', workflow = ''code_review''\<rparr>) =
             Some demo_builder"
    by (simp add: api_eval has_graph_get py_get_def py_set_def)
  from create_graph_registers [OF h] show ?thesis
    using h by (simp add: demo_builder_def py_keys_def has_graph_register)
qed

theorem conc_run_in_flight_running_witness:
  "in_flight_running demo_conc \<and> in_flight_running (conc_run (take 3 interleaved_events) demo_conc) \<and>
   py_keys (in_flight (conc_run (take 3 interleaved_events) demo_conc)) = [''r1'', ''r2'']"
proof -
  have h: "in_flight_running demo_conc" by (simp add: demo_conc_def in_flight_running_def py_keys_def)
  have k: "py_keys (in_flight (conc_run (take 3 interleaved_events) demo_conc)) = [''r1'', ''r2'']"
    by (simp add: conc_run_def demo_conc_def interleaved_events_def engine_eval fixture_defs)
  show ?thesis using h k conc_run_in_flight_running [OF h] by simp
qed

lemma count_run_returns:
  "run_graph ''count'' (Some [(''visits'', JInt 41)]) ''r1'' count_engine =
     Some (count_engine\<lparr>runs := [(''r1'', \<lparr>run_id = ''r1'', graph_id = ''count'', state = [(''visits'', JInt 42)],
             logs = [executing_msg ''A'', ''counted'', executing_msg ''B'', ''did B'', completed_msg],
             status = Completed, current_node = None\<rparr>)]\<rparr>,
           Inr \<lparr>run_id = ''r1'', graph_id = ''count'', state = [(''visits'', JInt 42)],
             logs = [executing_msg ''A'', ''counted'', executing_msg ''B'', ''did B'', completed_msg],
             status = Completed, current_node = None\<rparr>)"
  by (simp add: engine_eval count_engine_def count_graph_def node_count_def node_B_def new_tool_registry_def)

lemma server_reachable_step:
  "server_reachable b s \<Longrightarrow> srv_fresh e s \<Longrightarrow> server_reachable b (fst (server_step e s))"
  by (rule server_reachable.step [where out = "snd (server_step e s)"]) simp_all

lemma server1_reachable: "server_reachable demo_builder server1"
proof -
  have s0: "server_reachable demo_builder server0"
    using server_reachable.startup [of demo_builder] by (simp add: server0_def demo_app_def)
  have f: "srv_fresh (Arrive (Run_graph demo_request ''r1'')) server0"
    by (simp add: server0_def demo_app_after_run_facts(1))
  from server_reachable_step [OF server_reachable_step [OF s0 f], of "Resume_run ''r1''"] show ?thesis
    by (simp add: server1_def server_run_Cons)
qed

theorem server_reachable_wf_witness: "server_reachable demo_builder server1 \<and> server_wf server1"
  using server1_reachable server_reachable_wf [OF server1_reachable] by blast

theorem server_answers_as_sequential_witness:
  "\<exists>a' resp. run_graph_endpoint demo_request ''r1'' (srv_app server0) = Some (a', resp) \<and>
     py_get (srv_flight server0) ''r1'' = None \<and>
     (\<exists>n. \<forall>es. n \<le> count_list es (Resume_run ''r1'') \<longrightarrow> (\<forall>q. Arrive (Run_graph q ''r1'') \<notin> set es) \<longrightarrow>
        (To_run ''r1'', resp) \<in> set (snd (server_run (Arrive (Run_graph demo_request ''r1'') # es) server0)) \<and>
        get_run ''r1'' (engine (srv_app (fst (server_run (Arrive (Run_graph demo_request ''r1'') # es) server0)))) =
          get_run ''r1'' (engine a'))"
proof -
  have seq: "run_graph_endpoint demo_request ''r1'' (srv_app server0) =
      Some (demo_app_after_run, Run_result (run_result_of
        \<lparr>run_id = ''r1'', graph_id = ''code_review'', state = [],
         logs = [executing_msg ''A'', ''did A'', executing_msg ''B'', ''did B'', completed_msg],
         status = Completed, current_node = None\<rparr>))"
    by (simp add: server0_def demo_app_run)
  have idle: "py_get (srv_flight server0) ''r1'' = None" by (simp add: server0_def py_get_def)
  from seq idle server_answers_as_sequential [OF seq idle] show ?thesis by blast
qed

theorem run_graph_state_roundtrip_witness:
  "\<exists>eng' res. run_graph ''count'' (Some [(''visits'', JInt 41)]) ''r1'' count_engine = Some (eng', res) \<and>
     py_get (graphs count_engine) ''count'' = Some count_graph \<and>
     (\<exists>cs hl r. invoked count_graph (tool_registry count_engine) (case (Some [(''visits'', JInt 41)]) of None \<Rightarrow> [] | Some d \<Rightarrow> d)
                      (Some (start_node count_graph)) = Some (cs, hl) \<and>
           get_run ''r1'' eng' = Some r \<and>
           state r = apply_path count_graph (tool_registry count_engine) cs (case (Some [(''visits'', JInt 41)]) of None \<Rightarrow> [] | Some d \<Rightarrow> d) \<and>
           logs r = path_log count_graph (tool_registry count_engine) cs (case (Some [(''visits'', JInt 41)]) of None \<Rightarrow> [] | Some d \<Rightarrow> d) @ end_lines hl \<and>
           status r = halt_status hl \<and>
           current_node r = (case hl of Halt_raised e \<Rightarrow> Some (last cs) | _ \<Rightarrow> None) \<and>
           list_all (\<lambda>c. py_get (nodes count_graph) c \<noteq> None) cs \<and>
           res = (case hl of Halt_raised e \<Rightarrow> Inl e | _ \<Rightarrow> Inr r))"
proof -
  have g: "py_get (graphs count_engine) ''count'' = Some count_graph"
    by (simp add: count_engine_def py_get_def)
  from count_run_returns g run_graph_state_roundtrip [OF count_run_returns g] show ?thesis by blast
qed

lemma failing_walk:
  "invoked failing_graph (tool_registry demo_engine) [] (Some (start_node failing_graph)) =
     Some ([''A'', ''B''], Halt_raised (Other_exception ''boom''))"
  by (simp add: invoked.simps failing_graph_def node_A_def node_B_raises_def py_get_def)

lemma cancelled_walk:
  "invoked cancelled_graph (tool_registry demo_engine) [] (Some (start_node cancelled_graph)) =
     Some ([''A'', ''B''], Halt_raised (Base_exception ''''))"
  by (simp add: invoked.simps cancelled_graph_def node_A_def node_B_cancelled_def py_get_def)

lemma demo_has_raising_graphs:
  "py_get (graphs demo_engine) ''failing'' = Some failing_graph"
  "py_get (graphs demo_engine) ''cancelled'' = Some cancelled_graph"
  by (simp_all add: demo_engine_def py_get_def)

theorem run_graph_failed_witness:
  "py_get (graphs demo_engine) ''failing'' = Some failing_graph \<and>
   invoked failing_graph (tool_registry demo_engine) [] (Some (start_node failing_graph)) =
     Some ([''A'', ''B''], Halt_raised (Other_exception ''boom'')) \<and>
   is_exception (Other_exception ''boom'') \<and>
   (\<exists>eng' r. run_graph ''failing'' None ''r1'' demo_engine = Some (eng', Inl (Other_exception ''boom'')) \<and>
      get_run ''r1'' eng' = Some r \<and> status r = Failed \<and> current_node r = Some ''B'' \<and>
      logs r = path_log failing_graph (tool_registry demo_engine) [''A'', ''B''] [] @
                 [failed_msg (Other_exception ''boom'')])"
proof -
  have w: "invoked failing_graph (tool_registry demo_engine) (case None of None \<Rightarrow> [] | Some d \<Rightarrow> d)
             (Some (start_node failing_graph)) = Some ([''A'', ''B''], Halt_raised (Other_exception ''boom''))"
    using failing_walk by simp
  have x: "is_exception (Other_exception ''boom'')" by simp
  from run_graph_failed [OF demo_has_raising_graphs(1) w x, of "''r1''"] demo_has_raising_graphs(1) failing_walk x
  show ?thesis by simp
qed

theorem run_graph_base_exception_witness:
  "py_get (graphs demo_engine) ''cancelled'' = Some cancelled_graph \<and>
   invoked cancelled_graph (tool_registry demo_engine) [] (Some (start_node cancelled_graph)) =
     Some ([''A'', ''B''], Halt_raised (Base_exception '''')) \<and>
   \<not> is_exception (Base_exception '''') \<and>
   (\<exists>eng' r. run_graph ''cancelled'' None ''r1'' demo_engine = Some (eng', Inl (Base_exception '''')) \<and>
      get_run ''r1'' eng' = Some r \<and> status r = Running \<and> current_node r = Some ''B'' \<and>
      logs r = path_log cancelled_graph (tool_registry demo_engine) [''A'', ''B''] [])"
proof -
  have w: "invoked cancelled_graph (tool_registry demo_engine) (case None of None \<Rightarrow> [] | Some d \<Rightarrow> d)
             (Some (start_node cancelled_graph)) = Some ([''A'', ''B''], Halt_raised (Base_exception ''''))"
    using cancelled_walk by simp
  have x: "\<not> is_exception (Base_exception '''')" by simp
  from run_graph_base_exception [OF demo_has_raising_graphs(2) w x, of "''r1''"] demo_has_raising_graphs(2) cancelled_walk x
  show ?thesis by simp
qed

theorem ensure_default_graph_guard_witness:
  "has_graph ''code_review'' (engine rebuilt_app) \<and> ensure_default_graph rebuilt_app = rebuilt_app \<and>
   \<not> has_graph ''code_review'' (engine (initial_app demo_builder)) \<and>
   py_get (graphs (engine (ensure_default_graph (initial_app demo_builder)))) ''code_review'' =
     Some (demo_builder (tool_registry (engine (initial_app demo_builder))))"
proof -
  have h1: "has_graph ''code_review'' (engine rebuilt_app)"
    by (simp add: rebuilt_app_def api_eval has_graph_def py_contains_def py_keys_def py_set_def)
  have h2: "\<not> has_graph ''code_review'' (engine (initial_app demo_builder))"
    by (simp add: api_eval has_graph_def py_contains_def py_keys_def)
  from h1 h2 ensure_default_graph_guard [of rebuilt_app] ensure_default_graph_guard [of "initial_app demo_builder"]
  show ?thesis by (simp add: initial_app_def)
qed

end
