(* ===== verification/Spec2Isabelle.thy ===== *)
theory Spec2Isabelle
  imports Scenarios
begin

text \<open>
  \<^bold>\<open>A verification development for the workflow graph engine (src/).\<close>

  \<^emph>\<open>The program.\<close> \<open>src/engine.py\<close> holds the execution core: \<open>NodeResult\<close>,
  \<open>GraphDefinition\<close>, \<open>GraphRun\<close> and \<open>WorkflowEngine\<close>, whose coroutine \<open>run_graph\<close>
  creates a run record, walks the graph from its start node (each node gets the run's
  state, the tool registry and a logger bound to the run, and names the next node) and
  finalises the record as completed or failed. \<open>src/registry.py\<close> holds the
  \<open>ToolRegistry\<close> the nodes look tools up in, the two heuristic tools and
  \<open>register_default_tools\<close>. \<open>src/main.py\<close> exposes the engine over HTTP (a startup hook
  that registers the default graph, \<open>POST /graph/create\<close>, \<open>POST /graph/run\<close>,
  \<open>GET /graph/state/{run_id}\<close>); \<open>src/models.py\<close> holds their request and response
  schemas. The endpoints call the engine; the engine calls the nodes, which call the
  registry; several calls of \<open>run_graph\<close> may be in flight at once, interleaved at the
  \<open>await\<close> of a node.

  \<^emph>\<open>Theories.\<close>
  \<^item> \<open>Prelude\<close>: Python dictionaries as association lists (\<open>py_get\<close>, \<open>py_set\<close>,
    \<open>py_del\<close>, insertion order kept), truthiness of optional strings, f-string quoting,
    \<open>repr\<close> of a string, the exceptions (\<open>exc\<close>) and JSON state values; the collection
    \<open>pydict_simps\<close> of dictionary facts.
  \<^item> \<open>Registry\<close> (registry.py, \<open>ToolRegistry\<close>): the record \<open>tool_registry\<close>,
    polymorphic in the type of the tools; \<open>register\<close>, \<open>get\<close> (an error value for
    \<open>KeyError\<close>), \<open>try_get\<close>, \<open>list_tools\<close>. Lemmas: names stay unique, the last
    registration wins, \<open>get\<close> raises exactly for unregistered names.
  \<^item> \<open>Engine\<close> (engine.py): the data as records and datatypes; a node as a HOL function
    from state and registry to its effect (state left, lines logged, result or
    exception); the table operations; one loop iteration \<open>loop_step\<close>; the loop
    \<open>run_loop\<close> as a \<open>partial_function (option)\<close>, \<open>None\<close> when it runs for ever;
    \<open>finish_run\<close> for the code after the loop and \<open>run_graph\<close> for the whole method.
    A big-step semantics \<open>run_exec\<close> (one rule per way an iteration goes, proved equal
    to the loop) is the induction principle of the later proofs; it translates the same
    lines as \<open>loop_step\<close> and is not itself a specification. The theory states the
    behaviour of \<open>run_graph\<close> on completion, unregistered graph, missing or empty start
    node, per-iteration log order, termination for ranked graphs and divergence on traps.
  \<^item> \<open>Trace\<close>: an abstract specification of a run, computed apart from the engine: the
    walk from the start node (\<open>invoked\<close>: the nodes invoked and how the walk halts),
    the replay of their mutations (\<open>apply_path\<close>), their log groups (\<open>path_log\<close>) and
    the end of the log and the status for each way of halting (\<open>end_lines\<close>,
    \<open>halt_status\<close>). The loop refines the walk (by rule induction on \<open>run_exec\<close>), and
    the record \<open>run_graph\<close> stores is the one the walk determines: state, exact log,
    status, current node, and the result returned or raised. A walk that ends makes
    \<open>run_graph\<close> return (fixpoint induction on \<open>invoked\<close>), so the failure paths are
    stated from the nodes' behaviour: when the walk reaches a node that raises, the
    exception propagates, with the failure line for an \<open>Exception\<close> and none for a
    \<open>BaseException\<close>.
  \<^item> \<open>Concurrency\<close>: \<open>run_graph\<close> as a coroutine. The state is the engine and the frame
    (captured graph, \<open>current\<close>) of each suspended call; the events are the start of a
    call, one iteration of a suspended call, and a graph registration; \<open>conc_run\<close> runs
    any interleaving. Lemmas: a run's view depends only on its own events (projection,
    in the value model), a run resumed often enough stores what the sequential
    \<open>run_graph\<close> stores, and every suspended run is visible as \<open>running\<close> (\<open>in_flight_running\<close>, an invariant of every
    step, carried through any interleaving by \<open>conc_run_invariant\<close>).
  \<^item> \<open>Smells\<close> (registry.py, \<open>_detect_smells\<close>, \<open>_estimate_length_complexity\<close>,
    \<open>register_default_tools\<close>): Python's \<open>splitlines\<close>, \<open>strip\<close> and \<open>in\<close> for code points
    below 256 (with lemmas on them that the tool proofs use); the empty-code answer, the
    bound on the reported smells, the comment-density threshold and the registration of
    both tools.
  \<^item> \<open>Api\<close> (main.py, models.py): the schemas as records, the module state as the record
    \<open>app\<close>, the startup hook and each endpoint as a function to an \<open>api_response\<close>
    (\<open>HTTPException\<close> as \<open>Http_error\<close>, an escaping exception as \<open>Server_error\<close>), the
    server as the requests \<open>serve\<close> answers and its reachable states \<open>app_reachable\<close>,
    with their well-formedness invariant \<open>app_wf\<close>, the 404/400 paths and the startup
    hook's guard.
  \<^item> \<open>Server\<close> (main.py under the event loop): the module state and the frames of the
    suspended \<open>engine.run_graph\<close> calls (\<open>server\<close>); an event is a request arriving at a
    route or one iteration of a suspended run (\<open>server_step\<close>, whose engine part is
    \<open>conc_step\<close>); \<open>POST /graph/run\<close> is answered when its run ends
    (\<open>resume_response\<close>). Lemmas: a run depends only on its own events (\<open>srv_view\<close>);
    every run request is answered, after enough iterations of its run, exactly as the
    sequential endpoint answers it (a simulation by rule induction on \<open>run_exec\<close>); and
    the sequential server's invariant \<open>app_wf\<close> holds in every reachable interleaving.
  \<^item> \<open>Scenarios\<close>: the graphs of the specification's scenarios and the closed
    instances (witnesses) of the conditional theorems.
  \<^item> this theory: section 4.4 through the HTTP layer (\<open>GET /graph/state\<close> on the
    engine of any interleaving answers a suspended run as \<open>running\<close>), a node failure
    through \<open>POST /graph/run\<close> and \<open>GET /graph/state\<close>, and the specification's
    scenarios of section 8 evaluated on the demo server.

  \<^emph>\<open>Non-termination.\<close> No fuel and no bound is chosen: the loop is a \<open>partial_function\<close>
  in the option monad, so that a graph that loops for ever has the value \<open>None\<close> (proved
  for traps), and termination is proved as such (\<open>Some\<close>) for graphs ranked by a
  decreasing measure. In the concurrent models the number of iterations is the number of
  \<open>Resume\<close> (\<open>Resume_run\<close>) events, and the refinement theorems show that a finite number
  suffices whenever the sequential call returns; in the server that number does not
  depend on the other events (\<open>answers\<close>).

  \<^emph>\<open>Modelling choices.\<close> The run identifier that \<open>uuid.uuid4()\<close> draws is an argument of
  \<open>run_graph\<close>, and fresh in the server model. The asynchronous call of a node is one
  atomic effect: its state mutations and logger calls are recorded in order in its
  \<open>node_effect\<close>, and other runs interleave only between iterations (a node that
  reads another run's record mid-call is not represented). \<open>dict(initial_state or {})\<close>
  is a shallow copy; in a value model it is the identity, so the aliasing of nested
  values it leaves is not represented. In the code, two runs seeded from the same
  dictionary share its nested lists and dicts, and a node of one run that mutates them
  changes the other run's stored state; so the isolation of runs holds in this model
  only, and no theorem of the development claims it of the code. Strings are HOL strings, whose characters are the
  code points below 256.

  \<^emph>\<open>Not modelled.\<close> FastAPI routing and JSON encoding, and pydantic validation (a
  request record always has its fields): library code the sources only call. The
  workflow builder \<open>workflows.code_review\<close> is imported by \<open>main.py\<close> but is not part of
  the sources, so the graph it builds is a parameter of the server model (every theorem
  holds for any builder); for the same reason nodes that call the default tools through
  the registry are not modelled beyond the registry lookups themselves. Every line of
  \<open>src/\<close> other than imports and docstrings is translated by a definition of this
  development; nothing more of the program can be modelled without those sources.
\<close>

lemmas conc_eval = py_del_def conc_run_def demo_conc_def interleaved_events_def view_def

text \<open>Scenario A then B of the specification, section 8, through the HTTP layer: on a server whose code_review workflow is the graph A (next B, message did A), B (no next node, message did B), POST /graph/run with the empty state answers the completed run with state unchanged and the logs Executing node A, did A, Executing node B, did B, Run completed, in order; GET /graph/state of its id then shows the same record.\<close>

theorem spec_scenario_completed:
  "run_graph_endpoint demo_request ''r1'' demo_app =
     Some (demo_app_after_run,
           Run_result \<lparr>result_run_id = ''r1'', result_graph_id = ''code_review'', final_state = [],
             result_logs = [executing_msg ''A'', ''did A'', executing_msg ''B'', ''did B'', completed_msg],
             result_status = ''completed''\<rparr>) \<and>
   get_run_state ''r1'' demo_app_after_run =
     State_result \<lparr>state_run_id = ''r1'', state_graph_id = ''code_review'', state_state = [],
       state_logs = [executing_msg ''A'', ''did A'', executing_msg ''B'', ''did B'', completed_msg],
       state_status = ''completed'', state_current_node = None\<rparr>"
  by (simp add: demo_app_run demo_app_after_run_facts(3) run_result_of_def get_run_state_def)

text \<open>The failing scenario of the specification, section 8, through the HTTP layer: when node B raises, POST /graph/run lets the original exception escape, and a later GET /graph/state of the run shows status failed, the failure line last in its log, and B as the node it stopped at.\<close>

theorem spec_scenario_failure:
  "\<exists>a'. run_graph_endpoint demo_request ''r1'' failing_app = Some (a', Server_error (Other_exception ''boom'')) \<and>
     get_run_state ''r1'' a' =
       State_result \<lparr>state_run_id = ''r1'', state_graph_id = ''code_review'', state_state = [],
         state_logs = [executing_msg ''A'', ''did A'', executing_msg ''B'', failed_msg (Other_exception ''boom'')],
         state_status = ''failed'', state_current_node = Some ''B''\<rparr>"
  by (simp add: api_eval engine_eval fixture_defs executing_msg_def failed_msg_def)

text \<open>Two runs interleaved by the event loop, one completing and one failing, each end with the record the sequential run_graph stores, and neither is left suspended.\<close>

theorem interleaved_runs_sequential:
  "view ''r1'' (conc_run interleaved_events demo_conc) =
     (get_run ''r1'' (fst (the (run_graph ''demo'' (Some []) ''r1'' demo_engine))), None) \<and>
   view ''r2'' (conc_run interleaved_events demo_conc) =
     (get_run ''r2'' (fst (the (run_graph ''failing'' None ''r2'' demo_engine))), None)"
  by (simp add: conc_eval engine_eval fixture_defs pydict_simps)

text \<open>C28. Spec section 4.4 through the HTTP layer: in any interleaving of runs and graph registrations that starts with every suspended call visible as running, a GET /graph/state request for a run that is still suspended answers its record, under its own id, with status running (the reader sees the partially completed run, never a completed or failed one, and never a 404).\<close>

theorem concurrent_state_request_running:
  assumes "in_flight_running s" "py_get (in_flight (conc_run es s)) rid \<noteq> None"
  shows "\<exists>resp. get_run_state rid (a\<lparr>engine := conc_engine (conc_run es s)\<rparr>) = State_result resp \<and>
           state_run_id resp = rid \<and> state_status resp = ''running''"
proof -
  have "in_flight_running (conc_run es s)"
    by (rule conc_run_invariant [where P = in_flight_running, OF conc_step_in_flight_running assms(1)])
  from in_flight_runningD [OF this assms(2)] show ?thesis
    by (auto simp: shows_running_def get_run_state_def split: option.splits)
qed

theorem concurrent_state_request_running_witness:
  "in_flight_running server_conc \<and>
   py_get (in_flight (conc_run server_events server_conc)) ''r1'' \<noteq> None \<and>
   (\<exists>resp. get_run_state ''r1'' (demo_app\<lparr>engine := conc_engine (conc_run server_events server_conc)\<rparr>) =
      State_result resp \<and> state_run_id resp = ''r1'' \<and> state_status resp = ''running'')"
proof -
  have h1: "in_flight_running server_conc" by (simp add: server_conc_def in_flight_running_def py_keys_def)
  have h2: "py_get (in_flight (conc_run server_events server_conc)) ''r1'' \<noteq> None"
    by (simp add: server_conc_def server_events_def conc_run_def api_eval engine_eval fixture_defs)
  from h1 h2 concurrent_state_request_running [OF h1 h2] show ?thesis by blast
qed

text \<open>C20. When the walk of a registered graph from its start node reaches a node that raises an Exception e, POST /graph/run fails with exactly e (it escapes the endpoint, as a server error), and GET /graph/state for the run id then shows status failed, the raising node as current node, and the walk's log followed by the failure line.\<close>

theorem run_endpoint_node_failure:
  assumes g: "py_get (graphs (engine a)) (run_request_graph_id p) = Some g"
    and walk: "invoked g (tool_registry (engine a)) (initial_state p) (Some (start_node g)) = Some (cs, Halt_raised e)"
    and exc: "is_exception e"
  shows "\<exists>a' sr. run_graph_endpoint p rid a = Some (a', Server_error e) \<and>
           get_run_state rid a' = State_result sr \<and> state_status sr = ''failed'' \<and>
           state_current_node sr = Some (last cs) \<and>
           state_logs sr = path_log g (tool_registry (engine a)) cs (initial_state p) @ [failed_msg e]"
proof -
  from walk have w: "invoked g (tool_registry (engine a)) (case Some (initial_state p) of None \<Rightarrow> [] | Some d \<Rightarrow> d)
                       (Some (start_node g)) = Some (cs, Halt_raised e)" by simp
  from run_graph_walk_raised [OF g w, of rid] exc obtain eng' r where
    run: "run_graph (run_request_graph_id p) (Some (initial_state p)) rid (engine a) = Some (eng', Inl e)"
    and r: "get_run rid eng' = Some r" "status r = Failed" "current_node r = Some (last cs)"
      "logs r = path_log g (tool_registry (engine a)) cs (initial_state p) @ [failed_msg e]"
    by auto
  from g have "has_graph (run_request_graph_id p) (engine a)" by (simp add: has_graph_get)
  with run r show ?thesis by (simp add: run_graph_endpoint_def get_run_state_def)
qed

theorem run_endpoint_node_failure_witness:
  "py_get (graphs (engine failing_app)) (run_request_graph_id demo_request) =
     Some (failing_builder (tool_registry (engine failing_app))) \<and>
   invoked (failing_builder (tool_registry (engine failing_app))) (tool_registry (engine failing_app))
     (initial_state demo_request) (Some (start_node (failing_builder (tool_registry (engine failing_app))))) =
     Some ([''A'', ''B''], Halt_raised (Other_exception ''boom'')) \<and>
   is_exception (Other_exception ''boom'') \<and>
   (\<exists>a' sr. run_graph_endpoint demo_request ''r1'' failing_app = Some (a', Server_error (Other_exception ''boom'')) \<and>
      get_run_state ''r1'' a' = State_result sr \<and> state_status sr = ''failed'' \<and>
      state_current_node sr = Some ''B'' \<and>
      state_logs sr = path_log (failing_builder (tool_registry (engine failing_app))) (tool_registry (engine failing_app))
                        [''A'', ''B''] [] @ [failed_msg (Other_exception ''boom'')])"
proof -
  have g: "py_get (graphs (engine failing_app)) (run_request_graph_id demo_request) =
             Some (failing_builder (tool_registry (engine failing_app)))"
    by (simp add: failing_app_def demo_request_def ensure_default_graph_def initial_app_def new_engine_def
                  has_graph_def py_contains_def py_keys_def register_graph_def py_set_def py_get_def)
  have w: "invoked (failing_builder (tool_registry (engine failing_app))) (tool_registry (engine failing_app))
             (initial_state demo_request) (Some (start_node (failing_builder (tool_registry (engine failing_app))))) =
           Some ([''A'', ''B''], Halt_raised (Other_exception ''boom''))"
    by (simp add: invoked.simps failing_builder_def demo_request_def node_A_def node_B_raises_def py_get_def)
  have x: "is_exception (Other_exception ''boom'')" by simp
  from g w x run_endpoint_node_failure [OF g w x, of "''r1''"] show ?thesis by (simp add: demo_request_def)
qed

end
